theory Spec2Isabelle
  imports Complex_Main "HOL-Library.Char_ord" "HOL-Library.List_Lexorder" "HOL-Library.Sublist"
begin

chapter \<open>The medicines API: CSV import and query service\<close>

text \<open>
  A shallow embedding of the two subsystems of the repository: the CSV import pipeline of
  \<^verbatim>\<open>db/index.ts\<close>, the module the program imports as \<^verbatim>\<open>./db/seed\<close> (header normalisation, header-to-column mapping, validation against
  the insert schema of \<^verbatim>\<open>db/schema.ts\<close>, per-row insertion, aggregation) and the
  query handlers of \<^verbatim>\<open>server.ts\<close> (where-clause construction, pagination, statistics,
  distinct field values).

  Conventions of the embedding.
  \<^item> A JavaScript string is a \<^typ>\<open>string\<close>; a character stands for a code unit in the
    range 0..255 (ASCII and the Latin-1 supplement), which is closed under
    \<^verbatim>\<open>toLowerCase\<close> and contains the no-break space that \<^verbatim>\<open>trim\<close> strips.
  \<^item> The SQLite table \<^verbatim>\<open>medicines\<close> is a list of rows in rowid order; a row holds its
    integer id and, for each text column, a value or SQL NULL (\<^term>\<open>None\<close>).
  \<^item> An Effect that can fail is a function into a sum type, the failure on the left.
  \<^item> The file system, the CSV parser and the store's refusal of an insert are outside the
    repository; they are parameters of the import functions.
\<close>

section \<open>Definitions\<close>

subsection \<open>Header normalisation (\<^verbatim>\<open>cleanHeader\<close>, db/index.ts)\<close>

text \<open>
  \<^verbatim>\<open>raw.trim().replace(/\n/g, " ").replace(/ +/g, "_").replace(/[()\/]/g, "").toLowerCase()\<close>

  \<^verbatim>\<open>trim\<close> strips the white space and line terminators of ECMAScript from both ends; in
  the modelled range these are tab, line feed, vertical tab, form feed, carriage return,
  space and no-break space.
\<close>

definition isWhitespace :: "char \<Rightarrow> bool" where
  "isWhitespace c =
     (c \<in> {CHR 0x09, CHR 0x0A, CHR 0x0B, CHR 0x0C, CHR 0x0D, CHR 0x20, CHR 0xA0})"

definition trim :: "string \<Rightarrow> string" where
  "trim s = rev (dropWhile isWhitespace (rev (dropWhile isWhitespace s)))"

text \<open>\<^verbatim>\<open>.replace(/\n/g, " ")\<close>: every line feed becomes a space.\<close>

definition replaceNewlines :: "string \<Rightarrow> string" where
  "replaceNewlines s = map (\<lambda>c. if c = CHR 0x0A then CHR 0x20 else c) s"

text \<open>\<^verbatim>\<open>.replace(/ +/g, "_")\<close>: every maximal run of spaces becomes one underscore.\<close>

function collapseSpaces :: "string \<Rightarrow> string" where
  "collapseSpaces [] = []"
| "collapseSpaces (c # cs) =
     (if c = CHR 0x20 then CHR ''_'' # collapseSpaces (dropWhile (\<lambda>d. d = CHR 0x20) cs)
      else c # collapseSpaces cs)"
  by pat_completeness auto
termination
  by (relation "measure length") (auto simp: length_dropWhile_le less_Suc_eq_le)

text \<open>\<^verbatim>\<open>.replace(/[()\/]/g, "")\<close>: parentheses and slashes are deleted.\<close>

definition removePunct :: "string \<Rightarrow> string" where
  "removePunct s = filter (\<lambda>c. c \<noteq> CHR ''('' \<and> c \<noteq> CHR '')'' \<and> c \<noteq> CHR ''/'') s"

text \<open>
  \<^verbatim>\<open>.toLowerCase()\<close>: the upper-case letters of the modelled range are A..Z and
  U+00C0..U+00DE without the multiplication sign U+00D7; each has its lower-case letter
  32 code units above.
\<close>

definition isUpper :: "char \<Rightarrow> bool" where
  "isUpper c =
     (let n = (of_char c :: nat)
      in (65 \<le> n \<and> n \<le> 90) \<or> (192 \<le> n \<and> n \<le> 222 \<and> n \<noteq> 215))"

definition toLowerChar :: "char \<Rightarrow> char" where
  "toLowerChar c = (if isUpper c then char_of (of_char c + (32 :: nat)) else c)"

definition toLowerCase :: "string \<Rightarrow> string" where
  "toLowerCase s = map toLowerChar s"

definition cleanHeader :: "string \<Rightarrow> string" where
  "cleanHeader raw = toLowerCase (removePunct (collapseSpaces (replaceNewlines (trim raw))))"

text \<open>
  The characters a normalised key can consist of: no space, no line feed, no parenthesis,
  no slash and no upper-case letter.
\<close>

definition keyChar :: "char \<Rightarrow> bool" where
  "keyChar c =
     (c \<noteq> CHR 0x20 \<and> c \<noteq> CHR 0x0A \<and> c \<noteq> CHR ''('' \<and> c \<noteq> CHR '')'' \<and> c \<noteq> CHR ''/''
      \<and> \<not> isUpper c)"

subsection \<open>Property reads on object literals\<close>

text \<open>
  \<^verbatim>\<open>csvToTableMapping\<close> and \<^verbatim>\<open>fieldMapping\<close> are object literals read with
  \<^verbatim>\<open>obj[key]\<close> for a key that comes from the input. Such a read first looks among the
  object's own properties and then along the prototype chain, so for the member names of
  \<^verbatim>\<open>Object.prototype\<close> it yields a function (or, for \<^verbatim>\<open>__proto__\<close>, the prototype
  object): a truthy value that is no entry of the table. \<^term>\<open>None\<close> stands for
  \<^verbatim>\<open>undefined\<close>.
\<close>

definition objectPrototypeKeys :: "string list" where
  "objectPrototypeKeys =
     [''constructor'', ''__defineGetter__'', ''__defineSetter__'', ''hasOwnProperty'',
      ''__lookupGetter__'', ''__lookupSetter__'', ''isPrototypeOf'', ''propertyIsEnumerable'',
      ''toString'', ''valueOf'', ''__proto__'', ''toLocaleString'']"

datatype 'a property = Own 'a | Inherited string

definition getProperty :: "(string \<times> 'a) list \<Rightarrow> string \<Rightarrow> 'a property option" where
  "getProperty obj k =
     (case map_of obj k of
        Some v \<Rightarrow> Some (Own v)
      | None \<Rightarrow> if k \<in> set objectPrototypeKeys then Some (Inherited k) else None)"

text \<open>
  Used as a property key (\<^verbatim>\<open>insertObj[tableColumn] = ...\<close>), an inherited member is
  converted to a string: the source text of the native function, or
  \<^verbatim>\<open>[object Object]\<close> for the prototype object.
\<close>

definition inheritedToString :: "string \<Rightarrow> string" where
  "inheritedToString k =
     (if k = ''__proto__'' then ''[object Object]''
      else ''function '' @ (if k = ''constructor'' then ''Object'' else k) @ ''() { [native code] }'')"

fun propertyKey :: "string property \<Rightarrow> string" where
  "propertyKey (Own col) = col"
| "propertyKey (Inherited k) = inheritedToString k"

subsection \<open>The table and its insert schema (db/schema.ts)\<close>

text \<open>
  \<^verbatim>\<open>medicines\<close> has the auto-incremented integer primary key \<^verbatim>\<open>id\<close> and 39 text
  columns, none of them declared \<^verbatim>\<open>notNull()\<close>. Columns are named by their property
  names in the schema object.
\<close>

definition textColumns :: "string list" where
  "textColumns =
     [''category'', ''nameOfMedicine'', ''emaProductNumber'', ''medicineStatus'',
      ''opinionStatus'', ''latestProcedure'', ''inn'', ''activeSubstance'',
      ''therapeuticArea'', ''speciesVeterinary'', ''patientSafety'', ''atcCodeHuman'',
      ''atcVetCode'', ''pharmacotherapeuticGroupHuman'', ''pharmacotherapeuticGroupVet'',
      ''therapeuticIndication'', ''acceleratedAssessment'', ''additionalMonitoring'',
      ''advancedTherapy'', ''biosimilar'', ''conditionalApproval'',
      ''exceptionalCircumstances'', ''genericOrHybrid'', ''orphanMedicine'',
      ''primePriorityMedicine'', ''marketingAuthorisationDeveloper'',
      ''commissionDecisionDate'', ''startRollingReviewDate'', ''startEvaluationDate'',
      ''opinionAdoptedDate'', ''withdrawalApplicationDate'', ''marketingAuthorisationDate'',
      ''refusalMarketingAuthorisationDate'', ''withdrawalExpiryRevocationDate'',
      ''suspensionMarketingAuthorisationDate'', ''revisionNumber'', ''firstPublishedDate'',
      ''lastUpdatedDate'', ''medicineUrl'']"

record medicine =
  medicineId :: nat
  cols :: "string \<rightharpoonup> string"

type_synonym store = "medicine list"

text \<open>
  \<^verbatim>\<open>insertMedicineSchema = createInsertSchema(medicines)\<close> is a zod object schema: each
  text column accepts a string, \<^verbatim>\<open>null\<close> or an absent key; \<^verbatim>\<open>id\<close> accepts an
  integer between \<^verbatim>\<open>Number.MIN_SAFE_INTEGER\<close> and \<^verbatim>\<open>Number.MAX_SAFE_INTEGER\<close> or an
  absent key; keys the schema does not know are stripped from the parsed object.
  \<^term>\<open>None\<close> is a failed parse (a thrown \<^verbatim>\<open>ZodError\<close>).
\<close>

datatype jsValue = JNull | JString string | JNumber int

type_synonym csvRow = "(string \<times> string) list"
type_synonym insertObj = "string \<rightharpoonup> jsValue"

definition textAccepts :: "jsValue option \<Rightarrow> bool" where
  "textAccepts v = (case v of None \<Rightarrow> True | Some JNull \<Rightarrow> True | Some (JString s) \<Rightarrow> True
                     | Some (JNumber n) \<Rightarrow> False)"

definition idAccepts :: "jsValue option \<Rightarrow> bool" where
  "idAccepts v =
     (case v of
        None \<Rightarrow> True
      | Some (JNumber n) \<Rightarrow> - 9007199254740991 \<le> n \<and> n \<le> 9007199254740991
      | Some JNull \<Rightarrow> False
      | Some (JString s) \<Rightarrow> False)"

definition insertMedicineSchema_parse :: "insertObj \<Rightarrow> insertObj option" where
  "insertMedicineSchema_parse obj =
     (if idAccepts (obj ''id'') \<and> list_all (\<lambda>c. textAccepts (obj c)) textColumns
      then Some (obj |` set (''id'' # textColumns)) else None)"

subsection \<open>The import pipeline (db/index.ts)\<close>

definition csvToTableMapping :: "(string \<times> string) list" where
  "csvToTableMapping =
     [(''category'', ''category''),
      (''name_of_medicine'', ''nameOfMedicine''),
      (''ema_product_number'', ''emaProductNumber''),
      (''medicine_status'', ''medicineStatus''),
      (''opinion_status'', ''opinionStatus''),
      (''latest_procedure_affecting_product_information'', ''latestProcedure''),
      (''international_non-proprietary_name_inn__common_name'', ''inn''),
      (''active_substance'', ''activeSubstance''),
      (''therapeutic_area_mesh'', ''therapeuticArea''),
      (''species_veterinary'', ''speciesVeterinary''),
      (''patient_safety'', ''patientSafety''),
      (''atc_code_human'', ''atcCodeHuman''),
      (''atcvet_code_veterinary'', ''atcVetCode''),
      (''pharmacotherapeutic_group_human'', ''pharmacotherapeuticGroupHuman''),
      (''pharmacotherapeutic_group_veterinary'', ''pharmacotherapeuticGroupVet''),
      (''therapeutic_indication'', ''therapeuticIndication''),
      (''accelerated_assessment'', ''acceleratedAssessment''),
      (''additional_monitoring'', ''additionalMonitoring''),
      (''advanced_therapy'', ''advancedTherapy''),
      (''biosimilar'', ''biosimilar''),
      (''conditional_approval'', ''conditionalApproval''),
      (''exceptional_circumstances'', ''exceptionalCircumstances''),
      (''generic_or_hybrid'', ''genericOrHybrid''),
      (''orphan_medicine'', ''orphanMedicine''),
      (''prime:_priority_medicine'', ''primePriorityMedicine''),
      (''marketing_authorisation_developer__applicant__holder'',
         ''marketingAuthorisationDeveloper''),
      (''european_commission_decision_date'', ''commissionDecisionDate''),
      (''start_of_rolling_review_date'', ''startRollingReviewDate''),
      (''start_of_evaluation_date'', ''startEvaluationDate''),
      (''opinion_adopted_date'', ''opinionAdoptedDate''),
      (''withdrawal_of_application_date'', ''withdrawalApplicationDate''),
      (''marketing_authorisation_date'', ''marketingAuthorisationDate''),
      (''refusal_of_marketing_authorisation_date'', ''refusalMarketingAuthorisationDate''),
      (''withdrawal__expiry__revocation__lapse_of_marketing_authorisation_date'',
         ''withdrawalExpiryRevocationDate''),
      (''suspension_of_marketing_authorisation_date'',
         ''suspensionMarketingAuthorisationDate''),
      (''revision_number'', ''revisionNumber''),
      (''first_published_date'', ''firstPublishedDate''),
      (''last_updated_date'', ''lastUpdatedDate''),
      (''medicine_url'', ''medicineUrl'')]"

text \<open>
  The tagged error classes. The \<^verbatim>\<open>error: unknown\<close> payload of each class (the caught
  exception) is not modelled; \<^verbatim>\<open>rowData\<close> is.
\<close>

datatype importError =
    CSVReadError
  | CSVParseError
  | ValidationError csvRow
  | DatabaseInsertError csvRow

text \<open>
  \<^verbatim>\<open>readCSVFile\<close> wraps \<^verbatim>\<open>Bun.file(filename).text()\<close> and \<^verbatim>\<open>parseCSV\<close> wraps
  \<^verbatim>\<open>parse(content, {columns: true, ...})\<close> of csv-parse; a rejected promise or a thrown
  exception is \<^term>\<open>None\<close> of the parameter. A parsed record lists its header/value pairs
  in the order of \<^verbatim>\<open>Object.entries\<close>.
\<close>

definition readCSVFile :: "(string \<rightharpoonup> string) \<Rightarrow> string \<Rightarrow> importError + string" where
  "readCSVFile files filename =
     (case files filename of None \<Rightarrow> Inl CSVReadError | Some content \<Rightarrow> Inr content)"

definition parseCSV :: "(string \<rightharpoonup> csvRow list) \<Rightarrow> string \<Rightarrow> importError + csvRow list" where
  "parseCSV parser content =
     (case parser content of None \<Rightarrow> Inl CSVParseError | Some records \<Rightarrow> Inr records)"

text \<open>
  \<^verbatim>\<open>transformRow\<close>: the loop over \<^verbatim>\<open>Object.entries(row)\<close> assigns into
  \<^verbatim>\<open>insertObj\<close>, a later assignment to the same key replacing an earlier one.
\<close>

definition transformRow :: "csvRow \<Rightarrow> insertObj" where
  "transformRow row =
     fold (\<lambda>(rawKey, rawVal) insertObj.
             let cleanKey = cleanHeader rawKey in
             (case getProperty csvToTableMapping cleanKey of
                None \<Rightarrow> insertObj
              | Some tableColumn \<Rightarrow>
                  insertObj(propertyKey tableColumn \<mapsto> (if rawVal = [] then JNull else JString rawVal))))
          row Map.empty"

definition validateRow :: "insertObj \<Rightarrow> csvRow \<Rightarrow> importError + insertObj" where
  "validateRow insertObj originalRow =
     (case insertMedicineSchema_parse insertObj of
        Some validated \<Rightarrow> Inr validated
      | None \<Rightarrow> Inl (ValidationError originalRow))"

text \<open>
  \<^verbatim>\<open>insertRow\<close>: \<^verbatim>\<open>db.insert(medicines).values(validated)\<close> appends one row; a column
  the object does not give is NULL, and the id is assigned by AUTOINCREMENT. The predicate
  \<open>rejects\<close> says when the store refuses the statement (I/O or connection failure, a
  constraint); the rejected promise becomes \<^verbatim>\<open>DatabaseInsertError\<close>.
\<close>

definition nextId :: "store \<Rightarrow> nat" where
  "nextId st = Suc (fold max (map medicineId st) 0)"

definition storedCols :: "insertObj \<Rightarrow> (string \<rightharpoonup> string)" where
  "storedCols validated =
     (\<lambda>c. if c \<in> set textColumns
          then (case validated c of Some (JString s) \<Rightarrow> Some s | _ \<Rightarrow> None)
          else None)"

definition storedId :: "store \<Rightarrow> insertObj \<Rightarrow> nat" where
  "storedId st validated =
     (case validated ''id'' of Some (JNumber n) \<Rightarrow> nat n | _ \<Rightarrow> nextId st)"

definition insertRow ::
  "(store \<Rightarrow> insertObj \<Rightarrow> bool) \<Rightarrow> store \<Rightarrow> insertObj \<Rightarrow> csvRow \<Rightarrow> (importError + unit) \<times> store" where
  "insertRow rejects st validated originalRow =
     (if rejects st validated then (Inl (DatabaseInsertError originalRow), st)
      else (Inr (), st @ [\<lparr>medicineId = storedId st validated, cols = storedCols validated\<rparr>]))"

definition processRow ::
  "(store \<Rightarrow> insertObj \<Rightarrow> bool) \<Rightarrow> store \<Rightarrow> csvRow \<Rightarrow> (importError + unit) \<times> store" where
  "processRow rejects st row =
     (let transformed = transformRow row in
      case validateRow transformed row of
        Inl e \<Rightarrow> (Inl e, st)
      | Inr validated \<Rightarrow> insertRow rejects st validated row)"

text \<open>
  \<^verbatim>\<open>processAllRows\<close>: \<^verbatim>\<open>Effect.forEach\<close> returns one result per record, in the order
  of the records, each row's failure caught by \<^verbatim>\<open>Effect.catchAll\<close>. The rows reach the
  store in the order of the records (the embedding fixes this interleaving of the
  unbounded fan-out).
\<close>

record rowOutcome =
  success :: bool
  error :: "importError option"

fun forEachRow ::
  "(store \<Rightarrow> insertObj \<Rightarrow> bool) \<Rightarrow> store \<Rightarrow> csvRow list \<Rightarrow> rowOutcome list \<times> store" where
  "forEachRow rejects st [] = ([], st)"
| "forEachRow rejects st (row # rest) =
     (case processRow rejects st row of
        (r, st1) \<Rightarrow>
          (case forEachRow rejects st1 rest of
             (outs, st2) \<Rightarrow>
               ((case r of
                   Inr _ \<Rightarrow> \<lparr>success = True, error = None\<rparr>
                 | Inl e \<Rightarrow> \<lparr>success = False, error = Some e\<rparr>) # outs, st2)))"

record importOutcome =
  successCount :: nat
  errorCount :: nat
  errors :: "importError list"

definition processAllRows ::
  "(store \<Rightarrow> insertObj \<Rightarrow> bool) \<Rightarrow> store \<Rightarrow> csvRow list \<Rightarrow> importOutcome \<times> store" where
  "processAllRows rejects st records =
     (case forEachRow rejects st records of
        (results, st') \<Rightarrow>
          (\<lparr>successCount = length (filter success results),
            errorCount = length (filter (\<lambda>r. \<not> success r) results),
            errors = map the (filter (\<lambda>e. e \<noteq> None)
                        (map error (filter (\<lambda>r. \<not> success r) results)))\<rparr>, st'))"

text \<open>
  \<^verbatim>\<open>importCSV\<close> writes to the console and returns the result of
  \<^verbatim>\<open>processAllRows\<close> unchanged. The console is modelled by the lines written, one
  constructor per message of the source.
\<close>

datatype consoleLine =
    LogReading string
  | LogParsing
  | LogProcessing nat
  | LogComplete nat nat
  | LogErrorsHeading
  | LogError importError
  | LogMore nat

definition errorPreview :: "importError list \<Rightarrow> consoleLine list" where
  "errorPreview errs =
     (if length errs > 0
      then [LogErrorsHeading] @ map LogError (take 5 errs)
           @ (if length errs > 5 then [LogMore (length errs - 5)] else [])
      else [])"

definition importCSV ::
  "(string \<rightharpoonup> string) \<Rightarrow> (string \<rightharpoonup> csvRow list) \<Rightarrow> (store \<Rightarrow> insertObj \<Rightarrow> bool)
     \<Rightarrow> store \<Rightarrow> string \<Rightarrow> (importError + importOutcome) \<times> consoleLine list \<times> store" where
  "importCSV files parser rejects st filename =
     (case readCSVFile files filename of
        Inl e \<Rightarrow> (Inl e, [LogReading filename], st)
      | Inr content \<Rightarrow>
          (case parseCSV parser content of
             Inl e \<Rightarrow> (Inl e, [LogReading filename, LogParsing], st)
           | Inr records \<Rightarrow>
               (case processAllRows rejects st records of
                  (result, st') \<Rightarrow>
                    (Inr result,
                     [LogReading filename, LogParsing, LogProcessing (length records),
                      LogComplete (successCount result) (errorCount result)]
                       @ errorPreview (errors result),
                     st'))))"

text \<open>
  The rows of a run that fail the per-row pipeline, in the order of the records, each
  tried against the store as the rows before it left it; and the row an error carries.
\<close>

fun failingRows ::
  "(store \<Rightarrow> insertObj \<Rightarrow> bool) \<Rightarrow> store \<Rightarrow> csvRow list \<Rightarrow> csvRow list" where
  "failingRows rejects st [] = []"
| "failingRows rejects st (row # rest) =
     (case processRow rejects st row of
        (Inl e, st1) \<Rightarrow> row # failingRows rejects st1 rest
      | (Inr u, st1) \<Rightarrow> failingRows rejects st1 rest)"

fun errorRow :: "importError \<Rightarrow> csvRow option" where
  "errorRow CSVReadError = None"
| "errorRow CSVParseError = None"
| "errorRow (ValidationError row) = Some row"
| "errorRow (DatabaseInsertError row) = Some row"

fun loggedErrors :: "consoleLine list \<Rightarrow> importError list" where
  "loggedErrors [] = []"
| "loggedErrors (LogError e # ls) = e # loggedErrors ls"
| "loggedErrors (l # ls) = loggedErrors ls"

subsection \<open>SQLite operators used by the queries\<close>

text \<open>
  \<^verbatim>\<open>like(column, pattern)\<close> of drizzle is the LIKE operator of SQLite: in the pattern
  \<^verbatim>\<open>%\<close> matches any sequence of characters and \<^verbatim>\<open>_\<close> any single character; every
  other character matches itself, the letters A..Z and a..z without regard to case.
  The repository sets no \<^verbatim>\<open>case_sensitive_like\<close> pragma and gives no ESCAPE clause.
\<close>

definition asciiLower :: "char \<Rightarrow> char" where
  "asciiLower c =
     (let n = (of_char c :: nat) in if 65 \<le> n \<and> n \<le> 90 then char_of (n + 32) else c)"

function likeMatch :: "string \<Rightarrow> string \<Rightarrow> bool" where
  "likeMatch [] s = (s = [])"
| "likeMatch (p # ps) s =
     (if p = CHR ''%'' then
        likeMatch ps s \<or> (case s of [] \<Rightarrow> False | c # cs \<Rightarrow> likeMatch (p # ps) cs)
      else if p = CHR ''_'' then
        (case s of [] \<Rightarrow> False | c # cs \<Rightarrow> likeMatch ps cs)
      else
        (case s of [] \<Rightarrow> False | c # cs \<Rightarrow> asciiLower c = asciiLower p \<and> likeMatch ps cs))"
  by pat_completeness auto
termination
  by (relation "measure (\<lambda>(p, s). length p + length s)") auto

declare likeMatch.simps [simp del]

subsection \<open>Where-clause construction (\<^verbatim>\<open>buildWhereClause\<close>, server.ts)\<close>

text \<open>
  A query parameter is a string, or an integer for \<^verbatim>\<open>page\<close> and \<^verbatim>\<open>pageSize\<close>
  (the route's schema). \<^term>\<open>truthy\<close> is JavaScript's truthiness (\<^verbatim>\<open>!value\<close>),
  \<^term>\<open>toStr\<close> the conversion of a template literal (\<^verbatim>\<open>`%${value}%`\<close>).
\<close>

fun showNat :: "nat \<Rightarrow> string" where
  "showNat n = (if n < 10 then [char_of (48 + n)] else showNat (n div 10) @ [char_of (48 + n mod 10)])"

definition showInt :: "int \<Rightarrow> string" where
  "showInt i = (if i < 0 then CHR ''-'' # showNat (nat (- i)) else showNat (nat i))"

datatype qval = QStr string | QNum int

fun truthy :: "qval \<Rightarrow> bool" where
  "truthy (QStr s) = (s \<noteq> [])"
| "truthy (QNum n) = (n \<noteq> 0)"

fun toStr :: "qval \<Rightarrow> string" where
  "toStr (QStr s) = s"
| "toStr (QNum n) = showInt n"

type_synonym queryParams = "(string \<times> qval) list"

text \<open>
  A condition compares a column; \<^term>\<open>Member\<close> is the operand built from an inherited
  member of \<^verbatim>\<open>fieldMapping\<close>, which is no column. \<^term>\<open>Ge\<close> and \<^term>\<open>Le\<close> are the raw
  \<^verbatim>\<open>sql`${column} >= ${value}`\<close> fragments.
\<close>

datatype operand = Column string | Member string

datatype cond =
    Like operand string
  | Ge string string
  | Le string string
  | Or "cond list"
  | And "cond list"

text \<open>
  \<^verbatim>\<open>fieldMapping\<close> has one entry per text column of the schema, under the column's
  property name.
\<close>

definition fieldMapping :: "(string \<times> operand) list" where
  "fieldMapping = map (\<lambda>c. (c, Column c)) textColumns"

definition reservedParams :: "string list" where
  "reservedParams =
     [''page'', ''pageSize'', ''search'', ''marketingAuthorisationDateFrom'',
      ''marketingAuthorisationDateTo'', ''lastUpdatedDateFrom'', ''lastUpdatedDateTo'']"

fun fieldOperand :: "operand property \<Rightarrow> operand" where
  "fieldOperand (Own col) = col"
| "fieldOperand (Inherited k) = Member k"

definition fieldConditions :: "queryParams \<Rightarrow> cond list" where
  "fieldConditions queryParams =
     concat (map (\<lambda>(key, v).
        if key \<in> set reservedParams \<or> \<not> truthy v then []
        else (case getProperty fieldMapping key of
                None \<Rightarrow> []
              | Some field \<Rightarrow> [Like (fieldOperand field) (''%'' @ toStr v @ ''%'')]))
       queryParams)"

text \<open>
  \<^verbatim>\<open>if (queryParams.name) conditions.push(...)\<close>, for the four date bounds and the
  search term.
\<close>

definition boundCondition :: "queryParams \<Rightarrow> string \<Rightarrow> (string \<Rightarrow> cond) \<Rightarrow> cond list" where
  "boundCondition queryParams name mk =
     (case map_of queryParams name of
        None \<Rightarrow> []
      | Some v \<Rightarrow> if truthy v then [mk (toStr v)] else [])"

definition dateConditions :: "queryParams \<Rightarrow> cond list" where
  "dateConditions queryParams =
     boundCondition queryParams ''marketingAuthorisationDateFrom'' (Ge ''marketingAuthorisationDate'')
     @ boundCondition queryParams ''marketingAuthorisationDateTo'' (Le ''marketingAuthorisationDate'')
     @ boundCondition queryParams ''lastUpdatedDateFrom'' (Ge ''lastUpdatedDate'')
     @ boundCondition queryParams ''lastUpdatedDateTo'' (Le ''lastUpdatedDate'')"

definition searchConditions :: "queryParams \<Rightarrow> cond list" where
  "searchConditions queryParams =
     boundCondition queryParams ''search'' (\<lambda>s.
       let searchTerm = ''%'' @ s @ ''%'' in
       Or [Like (Column ''nameOfMedicine'') searchTerm,
           Like (Column ''inn'') searchTerm,
           Like (Column ''activeSubstance'') searchTerm,
           Like (Column ''therapeuticArea'') searchTerm,
           Like (Column ''therapeuticIndication'') searchTerm,
           Like (Column ''marketingAuthorisationDeveloper'') searchTerm,
           Like (Column ''emaProductNumber'') searchTerm])"

definition buildWhereClause :: "queryParams \<Rightarrow> cond option" where
  "buildWhereClause queryParams =
     (let conditions = fieldConditions queryParams @ dateConditions queryParams
                         @ searchConditions queryParams
      in if length conditions > 0 then Some (And conditions) else None)"

text \<open>
  The loop of \<^verbatim>\<open>buildWhereClause\<close> throws when it comes to a parameter that is
  not reserved, has a non-empty value and is named \<^verbatim>\<open>__proto__\<close>: \<^verbatim>\<open>fieldMapping[key]\<close>
  is then the prototype object itself, on which drizzle's \<^verbatim>\<open>like\<close> raises a
  \<^verbatim>\<open>TypeError\<close>. \<^term>\<open>fieldConditions\<close> and \<^term>\<open>buildWhereClause\<close> give the conditions of a
  run that does not throw.
\<close>

definition buildWhereClauseThrows :: "queryParams \<Rightarrow> bool" where
  "buildWhereClauseThrows queryParams =
     list_ex (\<lambda>(key, v). key \<notin> set reservedParams \<and> truthy v
                \<and> getProperty fieldMapping key = Some (Inherited ''__proto__''))
       queryParams"

subsection \<open>Running a query\<close>

text \<open>
  \<^verbatim>\<open>.where(undefined)\<close> selects every row. A row is selected when the condition is true;
  a comparison with NULL is not. Text compares by code units (the BINARY collation). A
  statement with an operand that is no column cannot be prepared or bound; the driver's
  exception is caught as \<^verbatim>\<open>DatabaseError\<close>.
\<close>

fun bindable :: "cond \<Rightarrow> bool" where
  "bindable (Like (Column c) pat) = True"
| "bindable (Like (Member k) pat) = False"
| "bindable (Ge c s) = True"
| "bindable (Le c s) = True"
| "bindable (Or cs) = list_all bindable cs"
| "bindable (And cs) = list_all bindable cs"

fun evalCond :: "cond \<Rightarrow> medicine \<Rightarrow> bool" where
  "evalCond (Like (Column c) pat) m = (case cols m c of None \<Rightarrow> False | Some v \<Rightarrow> likeMatch pat v)"
| "evalCond (Like (Member k) pat) m = False"
| "evalCond (Ge c s) m = (case cols m c of None \<Rightarrow> False | Some v \<Rightarrow> s \<le> v)"
| "evalCond (Le c s) m = (case cols m c of None \<Rightarrow> False | Some v \<Rightarrow> v \<le> s)"
| "evalCond (Or cs) m = list_ex (\<lambda>c. evalCond c m) cs"
| "evalCond (And cs) m = list_all (\<lambda>c. evalCond c m) cs"

datatype serverError = DatabaseError

text \<open>
  What a handler's Effect ends in when it does not succeed: the \<^verbatim>\<open>HTTPError\<close> its
  \<^verbatim>\<open>catchAll\<close> fails with, or a defect, an exception thrown inside \<^verbatim>\<open>Effect.sync\<close>,
  which \<^verbatim>\<open>catchAll\<close> does not see.
\<close>

datatype handlerFailure = HTTPError nat string | Defect

definition selectWhere :: "store \<Rightarrow> cond option \<Rightarrow> serverError + medicine list" where
  "selectWhere st whereClause =
     (case whereClause of
        None \<Rightarrow> Inr st
      | Some c \<Rightarrow> if bindable c then Inr (filter (evalCond c) st) else Inl DatabaseError)"

definition getTotalCount :: "store \<Rightarrow> cond option \<Rightarrow> serverError + int" where
  "getTotalCount st whereClause =
     (case selectWhere st whereClause of
        Inl e \<Rightarrow> Inl e
      | Inr matching \<Rightarrow> Inr (int (length matching)))"

text \<open>
  \<^verbatim>\<open>page\<close>, \<^verbatim>\<open>pageSize\<close> and the offset are JavaScript numbers. A number holding an
  integer is modelled by that integer; the result of \<^verbatim>\<open>-\<close> and \<^verbatim>\<open>*\<close> is the exact
  result rounded to the nearest double, ties to the even significand
  (\<^term>\<open>jsNumber\<close>), which is the exact result up to \<open>2^53\<close>.
\<close>

definition maxSafeInteger :: int where
  "maxSafeInteger = 9007199254740991"

definition int64Max :: int where
  "int64Max = 9223372036854775807"

function bitLength :: "int \<Rightarrow> nat" where
  "bitLength n = (if n \<le> 0 then 0 else Suc (bitLength (n div 2)))"
  by pat_completeness auto
termination
  by (relation "measure nat") auto

declare bitLength.simps [simp del]

definition jsNumber :: "int \<Rightarrow> int" where
  "jsNumber n =
     (let m = \<bar>n\<bar> in
      if m \<le> 2 ^ 53 then n
      else
        (let k = bitLength m - 53;
             q = m div 2 ^ k;
             r = m mod 2 ^ k;
             q' = (if 2 * r > 2 ^ k \<or> (2 * r = 2 ^ k \<and> odd q) then q + 1 else q)
         in sgn n * (q' * 2 ^ k)))"

text \<open>
  \<^verbatim>\<open>.limit(pageSize).offset(offset)\<close>: drizzle writes the LIMIT clause only for a limit
  that is not negative and the OFFSET clause only for an offset other than 0. SQLite takes
  a negative offset as 0, refuses an OFFSET clause without a LIMIT clause (a syntax error)
  and refuses a limit or an offset outside the 64-bit integers (a datatype mismatch); each
  refusal is caught as \<^verbatim>\<open>DatabaseError\<close>.
\<close>

definition getPaginatedData :: "store \<Rightarrow> cond option \<Rightarrow> int \<Rightarrow> int \<Rightarrow> serverError + medicine list" where
  "getPaginatedData st whereClause pg sz =
     (let offset = jsNumber (jsNumber (pg - 1) * sz) in
      case selectWhere st whereClause of
        Inl e \<Rightarrow> Inl e
      | Inr matching \<Rightarrow>
          if offset > int64Max \<or> offset < - int64Max - 1 \<or> sz > int64Max then Inl DatabaseError
          else if sz < 0 then (if offset = 0 then Inr matching else Inl DatabaseError)
          else Inr (take (nat sz) (drop (nat offset) matching)))"

subsection \<open>The handlers of server.ts\<close>

text \<open>
  \<^verbatim>\<open>GET /medicines\<close>. \<^verbatim>\<open>query.page ?? 1\<close> and \<^verbatim>\<open>query.pageSize ?? 50\<close>; the route's
  schema admits an integer \<^verbatim>\<open>page\<close> from 1 on, with no upper bound, and an integer
  \<^verbatim>\<open>pageSize\<close> from 1 to 100. \<^verbatim>\<open>buildWhereClause\<close> runs first; when it throws, the
  handler ends in the defect.
\<close>

record pagination =
  page :: int
  pageSize :: int
  totalRecords :: int
  totalPages :: int
  hasNextPage :: bool
  hasPreviousPage :: bool

record listResponse =
  listData :: "medicine list"
  listPagination :: pagination

definition numParam :: "queryParams \<Rightarrow> string \<Rightarrow> int \<Rightarrow> int" where
  "numParam query name dflt = (case map_of query name of Some (QNum n) \<Rightarrow> n | _ \<Rightarrow> dflt)"

definition listMedicines :: "store \<Rightarrow> queryParams \<Rightarrow> handlerFailure + listResponse" where
  "listMedicines st query =
     (let pg = numParam query ''page'' 1;
          sz = numParam query ''pageSize'' 50
      in if buildWhereClauseThrows query then Inl Defect
         else
           (let whereClause = buildWhereClause query
            in case getTotalCount st whereClause of
                 Inl DatabaseError \<Rightarrow> Inl (HTTPError 500 ''Database error occurred'')
               | Inr cnt \<Rightarrow>
                   (case getPaginatedData st whereClause pg sz of
                      Inl DatabaseError \<Rightarrow> Inl (HTTPError 500 ''Database error occurred'')
                    | Inr rows \<Rightarrow>
                        (let tp = (if cnt \<noteq> 0 then \<lceil>real_of_int cnt / real_of_int sz\<rceil> else 1)
                         in Inr \<lparr>listData = rows,
                                 listPagination =
                                   \<lparr>page = pg, pageSize = sz, totalRecords = cnt, totalPages = tp,
                                    hasNextPage = (pg < tp), hasPreviousPage = (pg > 1)\<rparr>\<rparr>))))"

text \<open>
  \<^verbatim>\<open>GET /medicines/stats\<close>. \<^verbatim>\<open>COUNT(CASE WHEN p THEN 1 END)\<close> counts the rows on which
  \<open>p\<close> is true.
\<close>

record statsResponse =
  totalMedicines :: nat
  human :: nat
  veterinary :: nat
  authorised :: nat
  withdrawn :: nat
  refused :: nat

definition countWhen :: "(medicine \<Rightarrow> bool) \<Rightarrow> store \<Rightarrow> nat" where
  "countWhen p st = length (filter p st)"

definition colEquals :: "string \<Rightarrow> string \<Rightarrow> medicine \<Rightarrow> bool" where
  "colEquals c lit = (\<lambda>m. cols m c = Some lit)"

definition colLike :: "string \<Rightarrow> string \<Rightarrow> medicine \<Rightarrow> bool" where
  "colLike c pat = (\<lambda>m. case cols m c of None \<Rightarrow> False | Some v \<Rightarrow> likeMatch pat v)"

definition stats :: "store \<Rightarrow> statsResponse" where
  "stats st =
     \<lparr>totalMedicines = length st,
      human = countWhen (colEquals ''category'' ''Human'') st,
      veterinary = countWhen (colEquals ''category'' ''Veterinary'') st,
      authorised = countWhen (colEquals ''medicineStatus'' ''Authorised'') st,
      withdrawn = countWhen (colLike ''medicineStatus'' ''%withdrawn%'') st,
      refused = countWhen (colLike ''medicineStatus'' ''%refused%'') st\<rparr>"

text \<open>
  \<^verbatim>\<open>GET /medicines/fields/:fieldName\<close>:
  \<^verbatim>\<open>selectDistinct({value: field}).where(field IS NOT NULL AND field != '').orderBy(field)\<close>.
\<close>

definition columnValues :: "string \<Rightarrow> store \<Rightarrow> string list" where
  "columnValues c st =
     concat (map (\<lambda>m. case cols m c of None \<Rightarrow> [] | Some v \<Rightarrow> if v \<noteq> [] then [v] else []) st)"

definition fieldValues :: "store \<Rightarrow> string \<Rightarrow> handlerFailure + string \<times> string list" where
  "fieldValues st fieldName =
     (case getProperty fieldMapping fieldName of
        None \<Rightarrow> Inl (HTTPError 400 ''Invalid field name'')
      | Some (Own (Column c)) \<Rightarrow> Inr (fieldName, sort (remdups (columnValues c st)))
      | Some _ \<Rightarrow> Inl (HTTPError 500 ''Database error occurred''))"

text \<open>
  For comparison with \<^term>\<open>stats\<close>: the number of rows whose status contains a keyword
  as a substring, letters compared without regard to case.
\<close>

definition containsKeyword :: "string \<Rightarrow> string \<Rightarrow> bool" where
  "containsKeyword kw v = sublist (map asciiLower kw) (map asciiLower v)"

definition statusKeywordCount :: "string \<Rightarrow> store \<Rightarrow> nat" where
  "statusKeywordCount kw st =
     length (filter (\<lambda>m. case cols m ''medicineStatus'' of
                             None \<Rightarrow> False | Some v \<Rightarrow> containsKeyword kw v) st)"

text \<open>A pattern character that LIKE reads as a wildcard.\<close>

definition wildcard :: "char \<Rightarrow> bool" where
  "wildcard c = (c = CHR ''%'' \<or> c = CHR ''_'')"

section \<open>Properties\<close>

subsection \<open>Header normalisation\<close>

lemma toLowerChar_not_upper: "\<not> isUpper (toLowerChar c)"
  by (auto simp: toLowerChar_def isUpper_def Let_def)

lemma toLowerChar_fix: "\<not> isUpper c \<Longrightarrow> toLowerChar c = c"
  by (simp add: toLowerChar_def)

lemma toLowerChar_code: "isUpper c \<Longrightarrow> (of_char (toLowerChar c) :: nat) = of_char c + 32"
  by (auto simp: toLowerChar_def isUpper_def Let_def)

lemma of_char_consts:
  "(of_char (CHR 0x20) :: nat) = 32" "(of_char (CHR 0x0A) :: nat) = 10"
  "(of_char (CHR ''('') :: nat) = 40" "(of_char (CHR '')'') :: nat) = 41"
  "(of_char (CHR ''/'') :: nat) = 47" "(of_char (CHR 0x09) :: nat) = 9"
  "(of_char (CHR 0x0B) :: nat) = 11" "(of_char (CHR 0x0C) :: nat) = 12"
  "(of_char (CHR 0x0D) :: nat) = 13" "(of_char (CHR 0xA0) :: nat) = 160"
  "(of_char (CHR ''_'') :: nat) = 95"
  by simp_all

lemma toLowerChar_neq:
  assumes "(of_char d :: nat) < 97" "c \<noteq> d"
  shows "toLowerChar c \<noteq> d"
proof (cases "isUpper c")
  case True
  then have "(of_char (toLowerChar c) :: nat) = of_char c + 32" by (rule toLowerChar_code)
  moreover from True have "(65::nat) \<le> of_char c" by (auto simp: isUpper_def Let_def)
  ultimately have "(of_char (toLowerChar c) :: nat) \<noteq> of_char d" using assms(1) by linarith
  then show ?thesis by auto
next
  case False
  then show ?thesis using assms(2) by (simp add: toLowerChar_def)
qed

lemma toLowerChar_keyChar:
  assumes "c \<noteq> CHR 0x20" "c \<noteq> CHR 0x0A" "c \<noteq> CHR ''(''" "c \<noteq> CHR '')''" "c \<noteq> CHR ''/''"
  shows "keyChar (toLowerChar c)"
  unfolding keyChar_def using assms
  by (simp add: toLowerChar_not_upper toLowerChar_neq)

lemma collapseSpaces_set: "set (collapseSpaces s) \<subseteq> insert (CHR ''_'') (set s - {CHR 0x20})"
proof (induction s rule: collapseSpaces.induct)
  case 1
  then show ?case by simp
next
  case (2 c cs)
  show ?case
  proof (cases "c = CHR 0x20")
    case True
    have "set (dropWhile (\<lambda>d. d = CHR 0x20) cs) \<subseteq> set cs" by (rule set_dropWhileD[THEN subsetI])
    with 2(1)[OF True] True show ?thesis by auto
  next
    case False
    with 2(2)[OF False] show ?thesis by auto
  qed
qed

lemma collapseSpaces_id: "CHR 0x20 \<notin> set s \<Longrightarrow> collapseSpaces s = s"
  by (induction s) auto

lemma replaceNewlines_set: "set (replaceNewlines s) \<subseteq> insert (CHR 0x20) (set s - {CHR 0x0A})"
  by (auto simp: replaceNewlines_def)

lemma replaceNewlines_id: "CHR 0x0A \<notin> set s \<Longrightarrow> replaceNewlines s = s"
  by (induction s) (auto simp: replaceNewlines_def)

lemma removePunct_id:
  "\<forall>c \<in> set s. c \<noteq> CHR ''('' \<and> c \<noteq> CHR '')'' \<and> c \<noteq> CHR ''/'' \<Longrightarrow> removePunct s = s"
  by (simp add: removePunct_def)

lemma toLowerCase_id: "\<forall>c \<in> set s. \<not> isUpper c \<Longrightarrow> toLowerCase s = s"
  by (simp add: toLowerCase_def toLowerChar_fix map_idI)

lemma trim_set: "set (trim s) \<subseteq> set s"
proof -
  have "set (dropWhile isWhitespace (rev (dropWhile isWhitespace s))) \<subseteq> set (rev (dropWhile isWhitespace s))"
    by (rule set_dropWhileD[THEN subsetI])
  also have "\<dots> \<subseteq> set s" using set_dropWhileD[of _ isWhitespace s] by auto
  finally show ?thesis by (simp add: trim_def)
qed

lemma dropWhile_none: "\<forall>c \<in> set s. \<not> P c \<Longrightarrow> dropWhile P s = s"
  by (cases s) auto

lemma trim_id: "\<forall>c \<in> set s. \<not> isWhitespace c \<Longrightarrow> trim s = s"
  by (simp add: trim_def dropWhile_none)

lemma cleanHeader_keyChars: "\<forall>c \<in> set (cleanHeader raw). keyChar c"
proof
  fix c assume "c \<in> set (cleanHeader raw)"
  then obtain d where d: "d \<in> set (removePunct (collapseSpaces (replaceNewlines (trim raw))))"
    and c: "c = toLowerChar d"
    by (auto simp: cleanHeader_def toLowerCase_def)
  from d have p: "d \<noteq> CHR ''(''" "d \<noteq> CHR '')''" "d \<noteq> CHR ''/''"
    and d': "d \<in> set (collapseSpaces (replaceNewlines (trim raw)))"
    by (auto simp: removePunct_def)
  from d' collapseSpaces_set have sp: "d \<noteq> CHR 0x20" and "d = CHR ''_'' \<or> d \<in> set (replaceNewlines (trim raw))"
    by fastforce+
  with replaceNewlines_set have "d \<noteq> CHR 0x0A" by fastforce
  with p sp show "keyChar c" unfolding c by (intro toLowerChar_keyChar)
qed

lemma cleanHeader_twice: "cleanHeader (cleanHeader raw) = trim (cleanHeader raw)"
proof -
  let ?t = "trim (cleanHeader raw)"
  have k: "\<forall>c \<in> set ?t. keyChar c" using cleanHeader_keyChars trim_set by blast
  have 1: "replaceNewlines ?t = ?t" using k by (intro replaceNewlines_id) (auto simp: keyChar_def)
  have 2: "collapseSpaces ?t = ?t" using k by (intro collapseSpaces_id) (auto simp: keyChar_def)
  have 3: "removePunct ?t = ?t" using k by (intro removePunct_id) (auto simp: keyChar_def)
  have 4: "toLowerCase ?t = ?t" using k by (intro toLowerCase_id) (auto simp: keyChar_def)
  show ?thesis by (subst cleanHeader_def) (simp only: 1 2 3 4)
qed

lemma isWhitespace_toLowerChar: "isWhitespace (toLowerChar c) \<Longrightarrow> isWhitespace c"
proof (cases "isUpper c")
  case True
  assume w: "isWhitespace (toLowerChar c)"
  from True have "(97::nat) \<le> of_char (toLowerChar c)" "(of_char (toLowerChar c) :: nat) \<noteq> 160"
    using toLowerChar_code[OF True] by (auto simp: isUpper_def Let_def)
  with w show ?thesis by (auto simp: isWhitespace_def)
next
  case False
  assume "isWhitespace (toLowerChar c)"
  with False show ?thesis by (simp add: toLowerChar_def)
qed

lemma cleanHeader_whitespace:
  assumes "c \<in> set (cleanHeader raw)" "isWhitespace c"
  shows "c \<in> set raw"
proof -
  from assms(1) obtain d where d: "d \<in> set (removePunct (collapseSpaces (replaceNewlines (trim raw))))"
    and c: "c = toLowerChar d"
    by (auto simp: cleanHeader_def toLowerCase_def)
  from assms(2) c have w: "isWhitespace d" using isWhitespace_toLowerChar by blast
  then have cd: "c = d" using c by (auto simp: toLowerChar_def isUpper_def isWhitespace_def Let_def)
  from d have "d \<in> set (collapseSpaces (replaceNewlines (trim raw)))" by (simp add: removePunct_def)
  with collapseSpaces_set w have "d \<in> set (replaceNewlines (trim raw))" by (fastforce simp: isWhitespace_def)
  with replaceNewlines_set have "d = CHR 0x20 \<or> d \<in> set (trim raw)" by fastforce
  moreover have "d \<noteq> CHR 0x20" using cleanHeader_keyChars assms(1) cd by (auto simp: keyChar_def)
  ultimately show ?thesis using trim_set cd by blast
qed

text \<open>
  Claim C9, as the code has it. Normalising a normalised key only trims it again, so
  \<^term>\<open>cleanHeader\<close> is idempotent on every raw header whose white space consists of
  spaces and line feeds only (no tab, vertical tab, form feed, carriage return or
  no-break space): on such a header the key has no white space left to trim.
\<close>

theorem cleanHeader_idempotent:
  assumes "\<forall>c \<in> set raw. isWhitespace c \<longrightarrow> c = CHR 0x20 \<or> c = CHR 0x0A"
  shows "cleanHeader (cleanHeader raw) = cleanHeader raw"
proof -
  have "\<forall>c \<in> set (cleanHeader raw). \<not> isWhitespace c"
  proof
    fix c assume c: "c \<in> set (cleanHeader raw)"
    show "\<not> isWhitespace c"
    proof
      assume w: "isWhitespace c"
      with c have "c \<in> set raw" by (rule cleanHeader_whitespace)
      with assms w have "c = CHR 0x20 \<or> c = CHR 0x0A" by blast
      moreover from c cleanHeader_keyChars have "keyChar c" by blast
      ultimately show False by (auto simp: keyChar_def)
    qed
  qed
  then have "trim (cleanHeader raw) = cleanHeader raw" by (rule trim_id)
  then show ?thesis by (simp add: cleanHeader_twice)
qed

text \<open>The header \<^verbatim>\<open>" Generic or  Hybrid (x) "\<close> and its key.\<close>

theorem cleanHeader_idempotent_witness:
  "cleanHeader (cleanHeader '' Generic or  Hybrid (x) '') = cleanHeader '' Generic or  Hybrid (x) ''
   \<and> cleanHeader '' Generic or  Hybrid (x) '' = ''generic_or_hybrid_x''"
proof -
  have "\<forall>c \<in> set '' Generic or  Hybrid (x) ''. isWhitespace c \<longrightarrow> c = CHR 0x20 \<or> c = CHR 0x0A"
    by (simp add: isWhitespace_def)
  from cleanHeader_idempotent[OF this] show ?thesis by code_simp
qed

text \<open>
  Claim C9 as stated, for all raw headers, fails: a tab between parentheses survives the
  first normalisation (it is neither at an end of the header nor a space) and is trimmed
  by the second. The header is \<^verbatim>\<open>"(\t)"\<close>; its key is a single tab, whose key is empty.
\<close>

theorem cleanHeader_not_idempotent:
  "cleanHeader (cleanHeader [CHR ''('', CHR 0x09, CHR '')'']) \<noteq> cleanHeader [CHR ''('', CHR 0x09, CHR '')'']"
  by code_simp


subsection \<open>The import run\<close>

lemma forEachRow_length: "forEachRow rejects st records = (outs, st') \<Longrightarrow> length outs = length records"
  by (induction records arbitrary: st outs st') (auto split: prod.splits)

lemma forEachRow_error_iff:
  "forEachRow rejects st records = (outs, st') \<Longrightarrow> \<forall>r \<in> set outs. (error r = None) = success r"
  by (induction records arbitrary: st outs st') (auto split: prod.splits sum.splits)

lemma forEachRow_failures:
  "forEachRow rejects st records = (outs, st') \<Longrightarrow>
     map errorRow (map the (map error (filter (\<lambda>r. \<not> success r) outs)))
       = map Some (failingRows rejects st records)"
proof (induction records arbitrary: st outs st')
  case Nil
  then show ?case by simp
next
  case (Cons row rest)
  obtain r st1 where p: "processRow rejects st row = (r, st1)" by (cases "processRow rejects st row")
  obtain outs1 st2 where f: "forEachRow rejects st1 rest = (outs1, st2)"
    by (cases "forEachRow rejects st1 rest")
  note ih = Cons.IH[OF f]
  show ?case
  proof (cases r)
    case (Inl e)
    have "errorRow e = Some row"
      using p Inl by (auto simp: processRow_def validateRow_def insertRow_def Let_def split: option.splits if_splits)
    with Cons.prems p f Inl ih show ?thesis by auto
  next
    case (Inr u)
    with Cons.prems p f ih show ?thesis by auto
  qed
qed

lemma forEachRow_store:
  "forEachRow rejects st records = (outs, st') \<Longrightarrow>
     length st' = length st + length (filter success outs)"
proof (induction records arbitrary: st outs st')
  case Nil
  then show ?case by simp
next
  case (Cons row rest)
  obtain r st1 where p: "processRow rejects st row = (r, st1)" by (cases "processRow rejects st row")
  obtain outs1 st2 where f: "forEachRow rejects st1 rest = (outs1, st2)"
    by (cases "forEachRow rejects st1 rest")
  have "length st1 = length st + (case r of Inl e \<Rightarrow> 0 | Inr u \<Rightarrow> 1)"
    using p by (auto simp: processRow_def validateRow_def insertRow_def Let_def split: option.splits if_splits)
  with Cons.prems p f Cons.IH[OF f] show ?case by (auto split: sum.splits)
qed

lemma filter_not_success: "length (filter (\<lambda>r. \<not> success r) outs) = length outs - length (filter success outs)"
  by (induction outs) (auto simp: Suc_diff_le)

lemma errors_all_present:
  "\<forall>r \<in> set outs. (error r = None) = success r \<Longrightarrow>
     filter (\<lambda>e. e \<noteq> None) (map error (filter (\<lambda>r. \<not> success r) outs))
       = map error (filter (\<lambda>r. \<not> success r) outs)"
  by (induction outs) auto

lemma processAllRows_results:
  assumes "forEachRow rejects st records = (outs, st')"
  shows "processAllRows rejects st records =
           (\<lparr>successCount = length records - length (failingRows rejects st records),
             errorCount = length (failingRows rejects st records),
             errors = map the (map error (filter (\<lambda>r. \<not> success r) outs))\<rparr>, st')"
    and "length (failingRows rejects st records) \<le> length records"
    and "length (filter (\<lambda>r. \<not> success r) outs) = length (failingRows rejects st records)"
    and "length st' = length st + (length records - length (failingRows rejects st records))"
proof -
  let ?fails = "filter (\<lambda>r. \<not> success r) outs"
  have len: "length outs = length records" using assms by (rule forEachRow_length)
  have "length (map errorRow (map the (map error ?fails))) = length (map Some (failingRows rejects st records))"
    using forEachRow_failures[OF assms] by simp
  then show m: "length ?fails = length (failingRows rejects st records)" by simp
  have le: "length ?fails \<le> length outs" by simp
  with m len show "length (failingRows rejects st records) \<le> length records" by simp
  have s: "length (filter success outs) = length records - length (failingRows rejects st records)"
    using filter_not_success[of outs] m len le
    by (metis diff_diff_cancel length_filter_le)
  have e: "filter (\<lambda>e. e \<noteq> None) (map error ?fails) = map error ?fails"
    using forEachRow_error_iff[OF assms] by (rule errors_all_present)
  show "processAllRows rejects st records =
           (\<lparr>successCount = length records - length (failingRows rejects st records),
             errorCount = length (failingRows rejects st records),
             errors = map the (map error ?fails)\<rparr>, st')"
    by (simp add: processAllRows_def assms s m e del: not_None_eq)
  show "length st' = length st + (length records - length (failingRows rejects st records))"
    using forEachRow_store[OF assms] s by simp
qed

lemma importCSV_parsed:
  assumes "files filename = Some content" and "parser content = Some records"
    and "forEachRow rejects st records = (outs, st')"
  shows "importCSV files parser rejects st filename =
           (Inr (fst (processAllRows rejects st records)),
            [LogReading filename, LogParsing, LogProcessing (length records),
             LogComplete (successCount (fst (processAllRows rejects st records)))
                         (errorCount (fst (processAllRows rejects st records)))]
              @ errorPreview (errors (fst (processAllRows rejects st records))),
            st')"
  using assms by (simp add: importCSV_def readCSVFile_def parseCSV_def processAllRows_def)

text \<open>
  Claim C1. When the file is read and parsed into \<open>N\<close> records of which \<open>M\<close> fail the
  per-row pipeline (\<^term>\<open>failingRows\<close>), the outcome \<^term>\<open>importCSV\<close> returns has
  \<open>successCount = N - M\<close> and \<open>errorCount = M\<close>, and every record contributes exactly one
  of the two counts.
\<close>

theorem import_counts:
  assumes "files filename = Some content" and "parser content = Some records"
  shows "\<exists>out. fst (importCSV files parser rejects st filename) = Inr out
           \<and> successCount out = length records - length (failingRows rejects st records)
           \<and> errorCount out = length (failingRows rejects st records)
           \<and> successCount out + errorCount out = length records"
proof -
  obtain outs st' where f: "forEachRow rejects st records = (outs, st')"
    by (cases "forEachRow rejects st records")
  let ?out = "fst (processAllRows rejects st records)"
  have "fst (importCSV files parser rejects st filename) = Inr ?out"
    using importCSV_parsed[of files filename content parser records rejects st outs st'] assms f by simp
  moreover have "successCount ?out = length records - length (failingRows rejects st records)"
    and "errorCount ?out = length (failingRows rejects st records)"
    using processAllRows_results(1)[OF f] by simp_all
  moreover have "length (failingRows rejects st records) \<le> length records"
    using f by (rule processAllRows_results(2))
  ultimately show ?thesis by simp
qed

text \<open>
  Three records, the store refusing the one whose category is null: two successes, one
  failure.
\<close>

theorem import_counts_witness:
  "\<exists>out. fst (importCSV (\<lambda>f. Some ''csv'')
                 (\<lambda>c. Some [[(''Category'', ''Human'')], [(''Category'', [])], [(''Name of medicine'', ''A'')]])
                 (\<lambda>s v. v ''category'' = Some JNull) [] ''medicines.csv'') = Inr out
         \<and> successCount out = 2 \<and> errorCount out = 1"
proof -
  let ?records = "[[(''Category'', ''Human'')], [(''Category'', [])], [(''Name of medicine'', ''A'')]]"
  have m: "length (failingRows (\<lambda>s v. v ''category'' = Some JNull) [] ?records) = 1"
    by code_simp
  have "\<exists>out. fst (importCSV (\<lambda>f. Some ''csv'') (\<lambda>c. Some ?records)
                 (\<lambda>s v. v ''category'' = Some JNull) [] ''medicines.csv'') = Inr out
         \<and> successCount out = length ?records
               - length (failingRows (\<lambda>s v. v ''category'' = Some JNull) [] ?records)
         \<and> errorCount out = length (failingRows (\<lambda>s v. v ''category'' = Some JNull) [] ?records)
         \<and> successCount out + errorCount out = length ?records"
    by (rule import_counts[of "\<lambda>f. Some ''csv''" "''medicines.csv''" "''csv''" "\<lambda>c. Some ?records"])
       simp_all
  then show ?thesis unfolding m by auto
qed

lemma processRow_store:
  "processRow rejects st row = (r, st1) \<Longrightarrow> set st \<subseteq> set st1"
  by (auto simp: processRow_def validateRow_def insertRow_def Let_def split: option.splits if_splits)

lemma forEachRow_keeps:
  "forEachRow rejects st records = (outs, st') \<Longrightarrow> set st \<subseteq> set st'"
proof (induction records arbitrary: st outs st')
  case Nil
  then show ?case by simp
next
  case (Cons row rest)
  obtain r st1 where p: "processRow rejects st row = (r, st1)" by (cases "processRow rejects st row")
  obtain outs1 st2 where f: "forEachRow rejects st1 rest = (outs1, st2)"
    by (cases "forEachRow rejects st1 rest")
  from Cons.prems p f have "st' = st2" by simp
  with processRow_store[OF p] Cons.IH[OF f] show ?case by blast
qed

lemma forEachRow_inserts:
  assumes "forEachRow rejects st records = (outs, st')" and "row \<in> set records"
    and "validateRow (transformRow row) row = Inr v" and "\<forall>s. \<not> rejects s v"
  shows "\<exists>m \<in> set st'. cols m = storedCols v"
  using assms(1,2)
proof (induction records arbitrary: st outs st')
  case Nil
  then show ?case by simp
next
  case (Cons x rest)
  obtain r st1 where p: "processRow rejects st x = (r, st1)" by (cases "processRow rejects st x")
  obtain outs1 st2 where f: "forEachRow rejects st1 rest = (outs1, st2)"
    by (cases "forEachRow rejects st1 rest")
  from Cons.prems(1) p f have st': "st' = st2" by simp
  show ?case
  proof (cases "x = row")
    case True
    with p assms(3,4) have "st1 = st @ [\<lparr>medicineId = storedId st v, cols = storedCols v\<rparr>]"
      by (simp add: processRow_def insertRow_def)
    then have "\<exists>m \<in> set st1. cols m = storedCols v" by simp
    with forEachRow_keeps[OF f] st' show ?thesis by blast
  next
    case False
    with Cons.prems(2) have "row \<in> set rest" by simp
    from Cons.IH[OF f this] st' show ?thesis by simp
  qed
qed

lemma errorPreview_logged: "loggedErrors (errorPreview errs) = take 5 errs"
proof -
  have m: "loggedErrors (map LogError es) = es" for es by (induction es) simp_all
  have a: "loggedErrors (map LogError es @ ls) = es @ loggedErrors ls" for es ls
    by (induction es) simp_all
  show ?thesis by (simp add: errorPreview_def a)
qed

lemma errorPreview_more: "(LogMore (length errs - 5) \<in> set (errorPreview errs)) = (5 < length errs)"
  by (auto simp: errorPreview_def)

lemma fold_invariant:
  assumes "P acc" and "\<And>x a. x \<in> set xs \<Longrightarrow> P a \<Longrightarrow> P (f x a)"
  shows "P (fold f xs acc)"
  using assms by (induction xs arbitrary: acc) simp_all

lemma inheritedToString_space: "CHR 0x20 \<in> set (inheritedToString k)"
  by (simp add: inheritedToString_def)

lemma schema_keys_no_space: "c \<in> set (''id'' # textColumns) \<Longrightarrow> CHR 0x20 \<notin> set c"
proof -
  have "list_all (\<lambda>c. CHR 0x20 \<notin> set c) (''id'' # textColumns)" by code_simp
  then show "c \<in> set (''id'' # textColumns) \<Longrightarrow> CHR 0x20 \<notin> set c"
    unfolding list_all_iff by blast
qed

lemma inheritedToString_no_key: "inheritedToString k \<notin> set (''id'' # textColumns)"
  using inheritedToString_space schema_keys_no_space by blast

lemma csvToTableMapping_columns:
  "map_of csvToTableMapping k = Some col \<Longrightarrow> col \<in> set textColumns"
proof -
  have "map snd csvToTableMapping = textColumns" by code_simp
  moreover assume "map_of csvToTableMapping k = Some col"
  then have "col \<in> set (map snd csvToTableMapping)" by (auto dest: map_of_SomeD intro: rev_image_eqI)
  ultimately show ?thesis by simp
qed

lemma id_no_text_column: "''id'' \<notin> set textColumns"
proof -
  have "list_all (\<lambda>c. c \<noteq> ''id'') textColumns" by code_simp
  then show ?thesis unfolding list_all_iff by blast
qed

lemma transformRow_values:
  "transformRow row key \<noteq> Some (JNumber n)"
  unfolding transformRow_def
  by (rule fold_invariant[where P = "\<lambda>obj. obj key \<noteq> Some (JNumber n)"])
     (auto simp: Let_def split: option.splits if_splits)

lemma transformRow_no_id: "transformRow row ''id'' = None"
  unfolding transformRow_def
proof (rule fold_invariant[where P = "\<lambda>obj. obj ''id'' = None"])
  show "Map.empty ''id'' = None" by simp
next
  fix x :: "string \<times> string" and a :: insertObj
  assume a: "a ''id'' = None"
  obtain rawKey rawVal where x: "x = (rawKey, rawVal)" by (cases x)
  show "(case x of (rawKey, rawVal) \<Rightarrow> \<lambda>insertObj.
           let cleanKey = cleanHeader rawKey in
           case getProperty csvToTableMapping cleanKey of
             None \<Rightarrow> insertObj
           | Some tableColumn \<Rightarrow>
               insertObj(propertyKey tableColumn \<mapsto> (if rawVal = [] then JNull else JString rawVal)))
          a ''id'' = None"
  proof (cases "getProperty csvToTableMapping (cleanHeader rawKey)")
    case None
    with a x show ?thesis by simp
  next
    case (Some p)
    have "propertyKey p \<noteq> ''id''"
    proof (cases p)
      case (Own col)
      with Some have "map_of csvToTableMapping (cleanHeader rawKey) = Some col"
        by (auto simp: getProperty_def split: option.splits if_splits)
      then have "col \<in> set textColumns" by (rule csvToTableMapping_columns)
      with id_no_text_column Own show ?thesis by auto
    next
      case (Inherited k)
      with inheritedToString_no_key[of k] show ?thesis by auto
    qed
    with a x Some show ?thesis by simp
  qed
qed

lemma validateRow_transformRow:
  "validateRow (transformRow row) row = Inr (transformRow row |` set (''id'' # textColumns))"
proof -
  have "textAccepts (transformRow row c)" for c
    using transformRow_values[of row c]
    by (auto simp: textAccepts_def split: option.splits jsValue.splits)
  then have "list_all (\<lambda>c. textAccepts (transformRow row c)) textColumns"
    unfolding list_all_iff by blast
  moreover have "idAccepts (transformRow row ''id'')"
    by (simp add: transformRow_no_id idAccepts_def)
  ultimately show ?thesis by (simp add: validateRow_def insertMedicineSchema_parse_def)
qed

lemma transformRow_blank:
  assumes "\<forall>(k, x) \<in> set row. map_of csvToTableMapping (cleanHeader k) = None \<or> x = []"
    and "c \<in> set textColumns"
  shows "transformRow row c = None \<or> transformRow row c = Some JNull"
  unfolding transformRow_def
proof (rule fold_invariant[where P = "\<lambda>obj. obj c = None \<or> obj c = Some JNull"])
  show "Map.empty c = None \<or> Map.empty c = Some JNull" by simp
next
  fix x :: "string \<times> string" and a :: insertObj
  assume xin: "x \<in> set row" and a: "a c = None \<or> a c = Some JNull"
  obtain rawKey rawVal where x: "x = (rawKey, rawVal)" by (cases x)
  from assms(1) xin x have h: "map_of csvToTableMapping (cleanHeader rawKey) = None \<or> rawVal = []"
    by auto
  show "(case x of (rawKey, rawVal) \<Rightarrow> \<lambda>insertObj.
           let cleanKey = cleanHeader rawKey in
           case getProperty csvToTableMapping cleanKey of
             None \<Rightarrow> insertObj
           | Some tableColumn \<Rightarrow>
               insertObj(propertyKey tableColumn \<mapsto> (if rawVal = [] then JNull else JString rawVal)))
          a c = None
        \<or> (case x of (rawKey, rawVal) \<Rightarrow> \<lambda>insertObj.
           let cleanKey = cleanHeader rawKey in
           case getProperty csvToTableMapping cleanKey of
             None \<Rightarrow> insertObj
           | Some tableColumn \<Rightarrow>
               insertObj(propertyKey tableColumn \<mapsto> (if rawVal = [] then JNull else JString rawVal)))
          a c = Some JNull"
  proof (cases "getProperty csvToTableMapping (cleanHeader rawKey)")
    case None
    with a x show ?thesis by simp
  next
    case (Some p)
    show ?thesis
    proof (cases p)
      case (Own col)
      with Some have "map_of csvToTableMapping (cleanHeader rawKey) = Some col"
        by (auto simp: getProperty_def split: option.splits if_splits)
      with h have "rawVal = []" by simp
      with a x Some Own show ?thesis by simp
    next
      case (Inherited k)
      from inheritedToString_no_key[of k] assms(2) have "inheritedToString k \<noteq> c" by auto
      with a x Some Inherited show ?thesis by simp
    qed
  qed
qed

lemma storedCols_blank:
  assumes "\<forall>(k, x) \<in> set row. map_of csvToTableMapping (cleanHeader k) = None \<or> x = []"
  shows "storedCols (transformRow row |` set (''id'' # textColumns)) = Map.empty"
proof
  fix c
  show "storedCols (transformRow row |` set (''id'' # textColumns)) c = None"
  proof (cases "c \<in> set textColumns")
    case True
    from transformRow_blank[OF assms True] True show ?thesis
      by (auto simp: storedCols_def)
  next
    case False
    then show ?thesis by (simp add: storedCols_def)
  qed
qed

text \<open>
  Claim C10. No parsed row fails validation: \<^term>\<open>transformRow\<close> writes only strings and
  nulls, under keys other than \<^verbatim>\<open>id\<close>, and every text column of the schema accepts a
  string, a null or an absent key. A row in which every header is unmapped or has the empty
  string as its value is, when the store accepts the insert, stored as a record whose
  columns are all NULL and counted as one success.
\<close>

theorem validation_never_fails:
  "(\<exists>v. validateRow (transformRow row) row = Inr v)
   \<and> ((\<forall>(k, x) \<in> set row. map_of csvToTableMapping (cleanHeader k) = None \<or> x = []) \<longrightarrow>
        (\<forall>v. validateRow (transformRow row) row = Inr v \<and> \<not> rejects st v \<longrightarrow>
           processRow rejects st row
             = (Inr (), st @ [\<lparr>medicineId = nextId st, cols = Map.empty\<rparr>])
           \<and> processAllRows rejects st [row]
             = (\<lparr>successCount = 1, errorCount = 0, errors = []\<rparr>,
                st @ [\<lparr>medicineId = nextId st, cols = Map.empty\<rparr>])))"
proof (intro conjI impI allI)
  show "\<exists>v. validateRow (transformRow row) row = Inr v"
    using validateRow_transformRow by blast
next
  fix v
  assume blank: "\<forall>(k, x) \<in> set row. map_of csvToTableMapping (cleanHeader k) = None \<or> x = []"
    and ok: "validateRow (transformRow row) row = Inr v \<and> \<not> rejects st v"
  from ok validateRow_transformRow[of row]
  have v: "v = transformRow row |` set (''id'' # textColumns)" by simp
  have c: "storedCols v = Map.empty" unfolding v using blank by (rule storedCols_blank)
  have i: "storedId st v = nextId st" by (simp add: v storedId_def transformRow_no_id)
  show p: "processRow rejects st row = (Inr (), st @ [\<lparr>medicineId = nextId st, cols = Map.empty\<rparr>])"
    using ok c i by (simp add: processRow_def insertRow_def)
  show "processAllRows rejects st [row]
          = (\<lparr>successCount = 1, errorCount = 0, errors = []\<rparr>,
             st @ [\<lparr>medicineId = nextId st, cols = Map.empty\<rparr>])"
    by (simp add: processAllRows_def p)
qed

text \<open>A row with an empty category and a column the mapping does not know.\<close>

theorem validation_never_fails_witness:
  "(\<exists>v. validateRow (transformRow [(''Category'', []), (''Unknown column'', ''x'')])
            [(''Category'', []), (''Unknown column'', ''x'')] = Inr v)
   \<and> processRow (\<lambda>s v. False) [] [(''Category'', []), (''Unknown column'', ''x'')]
       = (Inr (), [\<lparr>medicineId = 1, cols = Map.empty\<rparr>])
   \<and> processAllRows (\<lambda>s v. False) [] [[(''Category'', []), (''Unknown column'', ''x'')]]
       = (\<lparr>successCount = 1, errorCount = 0, errors = []\<rparr>, [\<lparr>medicineId = 1, cols = Map.empty\<rparr>])"
proof -
  let ?row = "[(''Category'', []), (''Unknown column'', ''x'')]"
  note t = validation_never_fails[of ?row "\<lambda>s v. False" "[]"]
  have h: "\<forall>(k, x) \<in> set ?row. map_of csvToTableMapping (cleanHeader k) = None \<or> x = []"
    by code_simp
  from t obtain v where v: "validateRow (transformRow ?row) ?row = Inr v" by blast
  from t h v have "processRow (\<lambda>s v. False) [] ?row
       = (Inr (), [] @ [\<lparr>medicineId = nextId [], cols = Map.empty\<rparr>])
     \<and> processAllRows (\<lambda>s v. False) [] [?row]
       = (\<lparr>successCount = 1, errorCount = 0, errors = []\<rparr>,
          [] @ [\<lparr>medicineId = nextId [], cols = Map.empty\<rparr>])"
    by blast
  with v show ?thesis by (auto simp: nextId_def)
qed

text \<open>
  Claim C2. A file that cannot be read, and a content that cannot be parsed, fail the whole
  import: the result is the error, there is no outcome and the store is as it was. Once the
  records are parsed the import returns an outcome whatever the rows do: every record is
  counted once, the errors carry exactly the failing rows, in order, and a record that
  passes validation and that the store does not refuse is stored, whichever of its
  siblings failed.
\<close>

theorem import_failure_semantics:
  "(files filename = None \<longrightarrow>
      importCSV files parser rejects st filename = (Inl CSVReadError, [LogReading filename], st))
   \<and> (\<forall>content. files filename = Some content \<and> parser content = None \<longrightarrow>
        importCSV files parser rejects st filename
          = (Inl CSVParseError, [LogReading filename, LogParsing], st))
   \<and> (\<forall>content records. files filename = Some content \<and> parser content = Some records \<longrightarrow>
        (\<exists>out logs st'. importCSV files parser rejects st filename = (Inr out, logs, st')
           \<and> successCount out + errorCount out = length records
           \<and> map errorRow (errors out) = map Some (failingRows rejects st records)
           \<and> (\<forall>row v. row \<in> set records \<and> validateRow (transformRow row) row = Inr v
                  \<and> (\<forall>s. \<not> rejects s v) \<longrightarrow> (\<exists>m \<in> set st'. cols m = storedCols v))))"
proof (intro conjI impI allI)
  assume "files filename = None"
  then show "importCSV files parser rejects st filename = (Inl CSVReadError, [LogReading filename], st)"
    by (simp add: importCSV_def readCSVFile_def)
next
  fix content
  assume "files filename = Some content \<and> parser content = None"
  then show "importCSV files parser rejects st filename
               = (Inl CSVParseError, [LogReading filename, LogParsing], st)"
    by (simp add: importCSV_def readCSVFile_def parseCSV_def)
next
  fix content records
  assume a: "files filename = Some content \<and> parser content = Some records"
  obtain outs st' where f: "forEachRow rejects st records = (outs, st')"
    by (cases "forEachRow rejects st records")
  let ?out = "fst (processAllRows rejects st records)"
  let ?logs = "[LogReading filename, LogParsing, LogProcessing (length records),
                LogComplete (successCount ?out) (errorCount ?out)] @ errorPreview (errors ?out)"
  have i: "importCSV files parser rejects st filename = (Inr ?out, ?logs, st')"
    using importCSV_parsed[of files filename content parser records rejects st outs st'] a f by simp
  have n: "successCount ?out + errorCount ?out = length records"
    using processAllRows_results(1,2)[OF f] by simp
  have e: "map errorRow (errors ?out) = map Some (failingRows rejects st records)"
    using processAllRows_results(1)[OF f] forEachRow_failures[OF f] by simp
  have s: "\<forall>row v. row \<in> set records \<and> validateRow (transformRow row) row = Inr v
             \<and> (\<forall>s. \<not> rejects s v) \<longrightarrow> (\<exists>m \<in> set st'. cols m = storedCols v)"
    using forEachRow_inserts[OF f] by blast
  from i n e s
  show "\<exists>out logs st'. importCSV files parser rejects st filename = (Inr out, logs, st')
           \<and> successCount out + errorCount out = length records
           \<and> map errorRow (errors out) = map Some (failingRows rejects st records)
           \<and> (\<forall>row v. row \<in> set records \<and> validateRow (transformRow row) row = Inr v
                  \<and> (\<forall>s. \<not> rejects s v) \<longrightarrow> (\<exists>m \<in> set st'. cols m = storedCols v))"
    by blast
qed

text \<open>
  An unreadable file; an unparsable content; and two records, the first refused by the
  store, the second stored.
\<close>

theorem import_failure_semantics_witness:
  "importCSV Map.empty (\<lambda>c. None) (\<lambda>s v. False) [] ''missing.csv''
     = (Inl CSVReadError, [LogReading ''missing.csv''], [])
   \<and> importCSV (\<lambda>f. Some ''a,b'') (\<lambda>c. None) (\<lambda>s v. False) [] ''broken.csv''
     = (Inl CSVParseError, [LogReading ''broken.csv'', LogParsing], [])
   \<and> (\<exists>out logs st'.
        importCSV (\<lambda>f. Some ''csv'')
          (\<lambda>c. Some [[(''Category'', [])], [(''Category'', ''Human'')]])
          (\<lambda>s v. v ''category'' = Some JNull) [] ''medicines.csv'' = (Inr out, logs, st')
        \<and> successCount out + errorCount out = 2
        \<and> map errorRow (errors out) = [Some [(''Category'', [])]]
        \<and> (\<exists>m \<in> set st'. cols m ''category'' = Some ''Human''))"
proof -
  let ?records = "[[(''Category'', [])], [(''Category'', ''Human'')]]"
  let ?rej = "\<lambda>(s :: store) (v :: insertObj). v ''category'' = Some JNull"
  let ?row = "[(''Category'', ''Human'')]"
  let ?v = "transformRow ?row |` set (''id'' # textColumns)"
  note t1 = import_failure_semantics[of Map.empty "''missing.csv''" "\<lambda>c. None" "\<lambda>s v. False" "[]"]
  note t2 = import_failure_semantics[of "\<lambda>f. Some ''a,b''" "''broken.csv''" "\<lambda>c. None"
              "\<lambda>s v. False" "[]"]
  note t3 = import_failure_semantics[of "\<lambda>f. Some ''csv''" "''medicines.csv''"
              "\<lambda>c. Some ?records" ?rej "[]"]
  have a: "importCSV Map.empty (\<lambda>c. None) (\<lambda>s v. False) [] ''missing.csv''
             = (Inl CSVReadError, [LogReading ''missing.csv''], [])"
    using t1 by simp
  have b: "importCSV (\<lambda>f. Some ''a,b'') (\<lambda>c. None) (\<lambda>s v. False) [] ''broken.csv''
             = (Inl CSVParseError, [LogReading ''broken.csv'', LogParsing], [])"
    using t2 by blast
  have f: "failingRows ?rej [] ?records = [[(''Category'', [])]]" by code_simp
  have cat: "?v ''category'' = Some (JString ''Human'')" by code_simp
  have col: "''category'' \<in> set textColumns" by code_simp
  have ex: "\<exists>out logs st'.
      importCSV (\<lambda>f. Some ''csv'') (\<lambda>c. Some ?records) ?rej [] ''medicines.csv'' = (Inr out, logs, st')
      \<and> successCount out + errorCount out = length ?records
      \<and> map errorRow (errors out) = map Some (failingRows ?rej [] ?records)
      \<and> (\<forall>row v. row \<in> set ?records \<and> validateRow (transformRow row) row = Inr v
               \<and> (\<forall>s. \<not> ?rej s v) \<longrightarrow> (\<exists>m \<in> set st'. cols m = storedCols v))"
    by (rule t3[THEN conjunct2, THEN conjunct2, rule_format, of "''csv''" ?records]) simp
  from ex obtain out logs st' where
    i: "importCSV (\<lambda>f. Some ''csv'') (\<lambda>c. Some ?records) ?rej [] ''medicines.csv'' = (Inr out, logs, st')"
    and n: "successCount out + errorCount out = length ?records"
    and e: "map errorRow (errors out) = map Some (failingRows ?rej [] ?records)"
    and s: "\<forall>row v. row \<in> set ?records \<and> validateRow (transformRow row) row = Inr v
               \<and> (\<forall>s. \<not> ?rej s v) \<longrightarrow> (\<exists>m \<in> set st'. cols m = storedCols v)"
    by (elim exE conjE) (rule that, assumption+)
  have pre: "?row \<in> set ?records \<and> validateRow (transformRow ?row) ?row = Inr ?v \<and> (\<forall>s. \<not> ?rej s ?v)"
    using cat by (simp add: validateRow_transformRow)
  have "\<exists>m \<in> set st'. cols m = storedCols ?v"
    by (rule s[rule_format, of ?row ?v]) (rule pre)
  then obtain m where m: "m \<in> set st'" "cols m = storedCols ?v"
    by (elim bexE)
  have "storedCols ?v ''category'' = Some ''Human''"
    unfolding storedCols_def using cat col by simp
  with m have mm: "\<exists>m \<in> set st'. cols m ''category'' = Some ''Human''" by (intro bexI[of _ m]) simp_all
  have e': "map errorRow (errors out) = [Some [(''Category'', [])]]" using e unfolding f by simp
  have n': "successCount out + errorCount out = 2" using n by simp
  from i n' e' mm have "\<exists>out logs st'.
        importCSV (\<lambda>f. Some ''csv'') (\<lambda>c. Some ?records) ?rej [] ''medicines.csv'' = (Inr out, logs, st')
        \<and> successCount out + errorCount out = 2
        \<and> map errorRow (errors out) = [Some [(''Category'', [])]]
        \<and> (\<exists>m \<in> set st'. cols m ''category'' = Some ''Human'')"
    by (intro exI conjI)
  with a b show ?thesis by (intro conjI)
qed

text \<open>
  Claim C3, as the code has it. The outcome \<^term>\<open>importCSV\<close> returns carries every
  failure: the length of \<open>errors\<close> is \<open>errorCount\<close>, the number of failing rows. The cap
  of 5 is on the console only: \<^verbatim>\<open>errors.slice(0, 5)\<close> are written, at most
  \<open>min M 5\<close> of them, followed by the count of the remaining ones when there are more
  than 5.
\<close>

theorem import_error_preview:
  assumes "files filename = Some content" and "parser content = Some records"
  shows "\<exists>out logs st'. importCSV files parser rejects st filename = (Inr out, logs, st')
           \<and> length (errors out) = errorCount out
           \<and> errorCount out = length (failingRows rejects st records)
           \<and> loggedErrors logs = take 5 (errors out)
           \<and> length (loggedErrors logs) = min (errorCount out) 5
           \<and> (LogMore (errorCount out - 5) \<in> set logs) = (5 < errorCount out)"
proof -
  obtain outs st' where f: "forEachRow rejects st records = (outs, st')"
    by (cases "forEachRow rejects st records")
  let ?out = "fst (processAllRows rejects st records)"
  let ?logs = "[LogReading filename, LogParsing, LogProcessing (length records),
                LogComplete (successCount ?out) (errorCount ?out)] @ errorPreview (errors ?out)"
  have i: "importCSV files parser rejects st filename = (Inr ?out, ?logs, st')"
    using importCSV_parsed[of files filename content parser records rejects st outs st'] assms f by simp
  have c: "errorCount ?out = length (failingRows rejects st records)"
    using processAllRows_results(1)[OF f] by simp
  have l: "length (errors ?out) = errorCount ?out"
    using processAllRows_results(1,3)[OF f] by simp
  have p: "loggedErrors ?logs = take 5 (errors ?out)" by (simp add: errorPreview_logged)
  have q: "length (loggedErrors ?logs) = min (errorCount ?out) 5" unfolding p using l by simp
  have m: "(LogMore (errorCount ?out - 5) \<in> set ?logs) = (5 < errorCount ?out)"
    using errorPreview_more[of "errors ?out"] l by simp
  from i c l p q m show ?thesis by blast
qed

text \<open>Six records, all refused by the store: five errors on the console, one more announced.\<close>

theorem import_error_preview_witness:
  "\<exists>out logs st'. importCSV (\<lambda>f. Some []) (\<lambda>c. Some (replicate 6 [])) (\<lambda>s v. True) []
                     ''medicines.csv'' = (Inr out, logs, st')
     \<and> errorCount out = 6 \<and> length (errors out) = 6
     \<and> length (loggedErrors logs) = 5 \<and> LogMore 1 \<in> set logs"
proof -
  have m: "length (failingRows (\<lambda>s v. True) [] (replicate 6 [])) = 6" by code_simp
  have "\<exists>out logs st'. importCSV (\<lambda>f. Some []) (\<lambda>c. Some (replicate 6 [])) (\<lambda>s v. True) []
                     ''medicines.csv'' = (Inr out, logs, st')
           \<and> length (errors out) = errorCount out
           \<and> errorCount out = length (failingRows (\<lambda>s v. True) [] (replicate 6 []))
           \<and> loggedErrors logs = take 5 (errors out)
           \<and> length (loggedErrors logs) = min (errorCount out) 5
           \<and> (LogMore (errorCount out - 5) \<in> set logs) = (5 < errorCount out)"
    by (rule import_error_preview[of "\<lambda>f. Some []" "''medicines.csv''" "[]" "\<lambda>c. Some (replicate 6 [])"])
       simp_all
  then show ?thesis unfolding m by auto
qed

text \<open>
  Claim C3 as stated fails: with six failing rows the returned outcome holds six errors,
  more than \<open>min 6 5\<close>.
\<close>

theorem import_errors_not_capped:
  "\<exists>out. fst (importCSV (\<lambda>f. Some []) (\<lambda>c. Some (replicate 6 [])) (\<lambda>s v. True) []
                 ''medicines.csv'') = Inr out
         \<and> errorCount out = 6 \<and> length (errors out) = 6
         \<and> \<not> length (errors out) \<le> min (errorCount out) 5"
proof -
  have "fst (importCSV (\<lambda>f. Some []) (\<lambda>c. Some (replicate 6 [])) (\<lambda>s v. True) [] ''medicines.csv'')
          = Inr \<lparr>successCount = 0, errorCount = 6,
                 errors = replicate 6 (DatabaseInsertError [])\<rparr>"
    by code_simp
  then show ?thesis by simp
qed

subsection \<open>The query service\<close>

lemma likeMatch_percent: "likeMatch ''%'' s"
  by (induction s) (simp_all add: likeMatch.simps)

lemma likeMatch_prefix:
  "\<not> list_ex wildcard p \<Longrightarrow>
     likeMatch (p @ ''%'') s = prefix (map asciiLower p) (map asciiLower s)"
proof (induction p arbitrary: s)
  case Nil
  then show ?case using likeMatch_percent by simp
next
  case (Cons a p)
  from Cons.prems have p: "\<not> list_ex wildcard p" by simp
  from Cons.prems have a: "a \<noteq> CHR ''%''" "a \<noteq> CHR ''_''" by (simp_all add: wildcard_def)
  show ?case
  proof (cases s)
    case Nil
    with a show ?thesis by (simp add: likeMatch.simps)
  next
    case (Cons c cs)
    with a Cons.IH[OF p, of cs] show ?thesis by (auto simp: likeMatch.simps)
  qed
qed

lemma likeMatch_contains:
  "\<not> list_ex wildcard p \<Longrightarrow>
     likeMatch (''%'' @ p @ ''%'') s = sublist (map asciiLower p) (map asciiLower s)"
proof (induction s)
  case Nil
  then show ?case using likeMatch_prefix[of p "[]"] by (simp add: likeMatch.simps)
next
  case (Cons c cs)
  have "likeMatch (''%'' @ p @ ''%'') (c # cs)
          = (likeMatch (p @ ''%'') (c # cs) \<or> likeMatch (''%'' @ p @ ''%'') cs)"
    by (simp add: likeMatch.simps)
  also have "\<dots> = (prefix (map asciiLower p) (map asciiLower (c # cs))
                    \<or> sublist (map asciiLower p) (map asciiLower cs))"
    using Cons.IH[OF Cons.prems] likeMatch_prefix[OF Cons.prems, of "c # cs"] by simp
  also have "\<dots> = sublist (map asciiLower p) (map asciiLower (c # cs))"
    by (simp add: sublist_Cons_right)
  finally show ?case .
qed

lemma getProperty_fieldMapping:
  "getProperty fieldMapping k =
     (if k \<in> set textColumns then Some (Own (Column k))
      else if k \<in> set objectPrototypeKeys then Some (Inherited k) else None)"
proof -
  have "map_of (map (\<lambda>c. (c, Column c)) cs) k = (if k \<in> set cs then Some (Column k) else None)"
    for cs by (induction cs) auto
  then show ?thesis by (simp add: getProperty_def fieldMapping_def)
qed

text \<open>
  Claim C8, as the code has it. \<^term>\<open>stats\<close> returns the number of rows, the numbers of
  rows whose category is exactly \<^verbatim>\<open>Human\<close> and exactly \<^verbatim>\<open>Veterinary\<close>, the number whose
  status is exactly \<^verbatim>\<open>Authorised\<close> (an equality test, not a pattern), and the numbers whose
  status contains \<^verbatim>\<open>withdrawn\<close> and \<^verbatim>\<open>refused\<close> as a substring, letters compared
  without regard to case.
\<close>

theorem stats_counts:
  "totalMedicines (stats st) = length st
   \<and> human (stats st) = length (filter (\<lambda>m. cols m ''category'' = Some ''Human'') st)
   \<and> veterinary (stats st) = length (filter (\<lambda>m. cols m ''category'' = Some ''Veterinary'') st)
   \<and> authorised (stats st) = length (filter (\<lambda>m. cols m ''medicineStatus'' = Some ''Authorised'') st)
   \<and> withdrawn (stats st) = statusKeywordCount ''withdrawn'' st
   \<and> refused (stats st) = statusKeywordCount ''refused'' st"
proof -
  have w: "\<not> list_ex wildcard ''withdrawn''" "\<not> list_ex wildcard ''refused''"
    by (simp_all add: wildcard_def)
  have "likeMatch ''%withdrawn%'' v = containsKeyword ''withdrawn'' v" for v
    using likeMatch_contains[OF w(1), of v] by (simp add: containsKeyword_def)
  moreover have "likeMatch ''%refused%'' v = containsKeyword ''refused'' v" for v
    using likeMatch_contains[OF w(2), of v] by (simp add: containsKeyword_def)
  ultimately show ?thesis
    by (simp add: stats_def countWhen_def colEquals_def colLike_def statusKeywordCount_def
          cong: option.case_cong)
qed

text \<open>
  Claim C8 as stated, all three status counts by substring of the keyword, fails for
  \<open>authorised\<close>: the stored values \<^verbatim>\<open>Not authorised\<close> and \<^verbatim>\<open>Authorised (conditional)\<close>
  both contain the keyword and neither is counted.
\<close>

theorem stats_authorised_not_substring:
  "authorised (stats [\<lparr>medicineId = 1, cols = [''medicineStatus'' \<mapsto> ''Not authorised'']\<rparr>,
                      \<lparr>medicineId = 2, cols = [''medicineStatus'' \<mapsto> ''Authorised (conditional)'']\<rparr>])
     \<noteq> statusKeywordCount ''authorised''
         [\<lparr>medicineId = 1, cols = [''medicineStatus'' \<mapsto> ''Not authorised'']\<rparr>,
          \<lparr>medicineId = 2, cols = [''medicineStatus'' \<mapsto> ''Authorised (conditional)'']\<rparr>]"
  by code_simp

text \<open>One authorised row and one whose application was withdrawn.\<close>

theorem stats_counts_witness:
  "authorised (stats [\<lparr>medicineId = 1, cols = [''medicineStatus'' \<mapsto> ''Authorised'', ''category'' \<mapsto> ''Human'']\<rparr>,
                      \<lparr>medicineId = 2, cols = [''medicineStatus'' \<mapsto> ''Application withdrawn'']\<rparr>]) = 1
   \<and> withdrawn (stats [\<lparr>medicineId = 1, cols = [''medicineStatus'' \<mapsto> ''Authorised'', ''category'' \<mapsto> ''Human'']\<rparr>,
                      \<lparr>medicineId = 2, cols = [''medicineStatus'' \<mapsto> ''Application withdrawn'']\<rparr>]) = 1"
proof -
  let ?st = "[\<lparr>medicineId = 1, cols = [''medicineStatus'' \<mapsto> ''Authorised'', ''category'' \<mapsto> ''Human'']\<rparr>,
              \<lparr>medicineId = 2, cols = [''medicineStatus'' \<mapsto> ''Application withdrawn'']\<rparr>]"
  have k: "statusKeywordCount ''withdrawn'' ?st = 1" by code_simp
  have a: "length (filter (\<lambda>m. cols m ''medicineStatus'' = Some ''Authorised'') ?st) = 1" by simp
  from stats_counts[of ?st] show ?thesis unfolding k a by (elim conjE) (intro conjI)
qed



text \<open>
  Distinct values. For a name of a text column the handler returns the column's values
  without NULL and the empty string, sorted and without duplicates. It answers
  \<^verbatim>\<open>400 Invalid field name\<close> exactly for the names that \<^verbatim>\<open>fieldMapping[fieldName]\<close>
  does not resolve: the names that are neither a text column nor a member every object
  literal inherits.
\<close>

lemma columnValues_set:
  "set (columnValues c st) = {v. v \<noteq> [] \<and> (\<exists>m \<in> set st. cols m c = Some v)}"
  by (auto simp: columnValues_def split: option.splits if_splits)

lemma fieldValues_known:
  assumes "fieldName \<in> set textColumns"
  shows "\<exists>vs. fieldValues st fieldName = Inr (fieldName, vs) \<and> sorted vs \<and> distinct vs
           \<and> set vs = {v. v \<noteq> [] \<and> (\<exists>m \<in> set st. cols m fieldName = Some v)}"
  using assms by (simp add: fieldValues_def getProperty_fieldMapping columnValues_set)

lemma fieldValues_invalid_iff:
  "(fieldValues st fieldName = Inl (HTTPError 400 ''Invalid field name''))
     = (fieldName \<notin> set textColumns \<and> fieldName \<notin> set objectPrototypeKeys)"
  by (simp add: fieldValues_def getProperty_fieldMapping)

text \<open>
  Claim C7 (a defect of the code). \<^verbatim>\<open>constructor\<close> is no canonical field, yet
  \<^verbatim>\<open>fieldMapping["constructor"]\<close> is the inherited \<^verbatim>\<open>Object\<close> function, a truthy value:
  the guard \<^verbatim>\<open>if (!field)\<close> does not fire, the query is built on a value that is no
  column, and the request \<^verbatim>\<open>GET /medicines/fields/constructor\<close> ends in
  \<^verbatim>\<open>500 Database error occurred\<close> instead of \<^verbatim>\<open>400 Invalid field name\<close>.
\<close>

theorem fieldValues_inherited_member:
  "''constructor'' \<notin> set textColumns
   \<and> getProperty fieldMapping ''constructor'' = Some (Inherited ''constructor'')
   \<and> fieldValues [] ''constructor'' = Inl (HTTPError 500 ''Database error occurred'')
   \<and> fieldValues [] ''constructor'' \<noteq> Inl (HTTPError 400 ''Invalid field name'')"
  by code_simp

text \<open>
  Pagination. Within the safe integers the arithmetic of the handler is exact and the
  store accepts the offset; whatever \<^term>\<open>getPaginatedData\<close> returns is a run of
  consecutive matching rows. A parameter map on which \<^verbatim>\<open>buildWhereClause\<close> throws builds
  no statement the store would run.
\<close>

lemma jsNumber_safe: "\<bar>n\<bar> \<le> maxSafeInteger \<Longrightarrow> jsNumber n = n"
  by (simp add: jsNumber_def maxSafeInteger_def Let_def)




lemma buildWhereClauseThrows_unbindable:
  assumes "buildWhereClauseThrows q"
  shows "selectWhere st (buildWhereClause q) = Inl DatabaseError"
proof -
  from assms obtain k v where kv: "(k, v) \<in> set q" "k \<notin> set reservedParams" "truthy v"
      "getProperty fieldMapping k = Some (Inherited ''__proto__'')"
    by (auto simp: buildWhereClauseThrows_def list_ex_iff)
  then have m: "Like (Member ''__proto__'') (''%'' @ toStr v @ ''%'') \<in> set (fieldConditions q)"
    by (force simp: fieldConditions_def)
  let ?cs = "fieldConditions q @ dateConditions q @ searchConditions q"
  from m have ne: "?cs \<noteq> []" by auto
  have "\<not> bindable (Like (Member ''__proto__'') (''%'' @ toStr v @ ''%''))" by simp
  with m have "\<not> list_all bindable ?cs" unfolding list_all_iff by (metis UnCI set_append)
  with ne show ?thesis by (simp add: selectWhere_def buildWhereClause_def Let_def)
qed

lemma getPaginatedData_in_range:
  assumes "selectWhere st whereClause = Inr matching"
    and "1 \<le> pg" and "1 \<le> sz" and "sz \<le> 100" and "(pg - 1) * sz \<le> maxSafeInteger"
  shows "getPaginatedData st whereClause pg sz = Inr (take (nat sz) (drop (nat ((pg - 1) * sz)) matching))"
proof -
  have o: "0 \<le> (pg - 1) * sz" using assms(2,3) by simp
  have "pg - 1 \<le> (pg - 1) * sz" using assms(2,3) by (simp add: mult_le_cancel_left1)
  with assms(5) assms(2) have "\<bar>pg - 1\<bar> \<le> maxSafeInteger" by simp
  then have a: "jsNumber (pg - 1) = pg - 1" by (rule jsNumber_safe)
  from o assms(5) have "\<bar>(pg - 1) * sz\<bar> \<le> maxSafeInteger" by simp
  then have b: "jsNumber ((pg - 1) * sz) = (pg - 1) * sz" by (rule jsNumber_safe)
  have c: "(pg - 1) * sz \<le> int64Max" using assms(5) by (simp add: maxSafeInteger_def int64Max_def)
  have d: "sz \<le> int64Max" using assms(4) by (simp add: int64Max_def)
  have e: "\<not> (pg - 1) * sz < - int64Max - 1" using o by (simp add: int64Max_def)
  show ?thesis
    using assms(1,3) o c d e by (simp add: getPaginatedData_def a b Let_def)
qed




lemma fieldConditions_known:
  assumes "\<forall>(k, v) \<in> set q. k \<notin> set objectPrototypeKeys"
  shows "fieldConditions q =
           map (\<lambda>(k, v). Like (Column k) (''%'' @ toStr v @ ''%''))
             (filter (\<lambda>(k, v). k \<notin> set reservedParams \<and> truthy v \<and> k \<in> set textColumns) q)"
  using assms
proof (induction q)
  case Nil
  then show ?case by (simp add: fieldConditions_def)
next
  case (Cons e q)
  obtain k v where e: "e = (k, v)" by (cases e)
  from Cons.prems e have k: "k \<notin> set objectPrototypeKeys" by simp
  from Cons.prems have "\<forall>(k, v) \<in> set q. k \<notin> set objectPrototypeKeys" by simp
  from Cons.IH[OF this] have ih: "fieldConditions q =
           map (\<lambda>(k, v). Like (Column k) (''%'' @ toStr v @ ''%''))
             (filter (\<lambda>(k, v). k \<notin> set reservedParams \<and> truthy v \<and> k \<in> set textColumns) q)" .
  have "fieldConditions (e # q) =
          (if k \<in> set reservedParams \<or> \<not> truthy v then []
           else (case getProperty fieldMapping k of None \<Rightarrow> []
                 | Some field \<Rightarrow> [Like (fieldOperand field) (''%'' @ toStr v @ ''%'')]))
          @ fieldConditions q"
    by (simp add: fieldConditions_def e)
  also have "(if k \<in> set reservedParams \<or> \<not> truthy v then []
           else (case getProperty fieldMapping k of None \<Rightarrow> []
                 | Some field \<Rightarrow> [Like (fieldOperand field) (''%'' @ toStr v @ ''%'')]))
       = (if k \<notin> set reservedParams \<and> truthy v \<and> k \<in> set textColumns
          then [Like (Column k) (''%'' @ toStr v @ ''%'')] else [])"
    using k by (simp add: getProperty_fieldMapping)
  finally show ?case unfolding ih e by simp
qed

text \<open>
  Claim C5, as the code has it. For parameters none of which is named after an inherited
  member of the object literal, the loop of \<^term>\<open>buildWhereClause\<close> adds one condition
  \<^verbatim>\<open>field LIKE '%value%'\<close> for each parameter, in order, whose name is not reserved, whose
  value is non-empty and whose name is a text column; reserved and unknown names add
  nothing. The conditions are the first conjuncts of the clause. Such a condition holds of
  a row when the column is not NULL and matches the pattern as LIKE reads it: \<^verbatim>\<open>%\<close> and
  \<^verbatim>\<open>_\<close> in the value are wildcards, and a value without them matches exactly when it
  occurs in the column as a substring, letters compared without regard to case.
\<close>

theorem fieldConditions_spec:
  assumes "\<forall>(k, v) \<in> set q. k \<notin> set objectPrototypeKeys"
  shows "fieldConditions q =
           map (\<lambda>(k, v). Like (Column k) (''%'' @ toStr v @ ''%''))
             (filter (\<lambda>(k, v). k \<notin> set reservedParams \<and> truthy v \<and> k \<in> set textColumns) q)
    \<and> (case buildWhereClause q of
          None \<Rightarrow> fieldConditions q = []
        | Some c \<Rightarrow> c = And (fieldConditions q @ dateConditions q @ searchConditions q))
    \<and> (\<forall>k pat m. evalCond (Like (Column k) pat) m = (\<exists>x. cols m k = Some x \<and> likeMatch pat x))
    \<and> (\<forall>s x. \<not> list_ex wildcard s \<longrightarrow>
          likeMatch (''%'' @ s @ ''%'') x = sublist (map asciiLower s) (map asciiLower x))"
proof (intro conjI allI impI)
  show "fieldConditions q =
           map (\<lambda>(k, v). Like (Column k) (''%'' @ toStr v @ ''%''))
             (filter (\<lambda>(k, v). k \<notin> set reservedParams \<and> truthy v \<and> k \<in> set textColumns) q)"
    using assms by (rule fieldConditions_known)
  show "case buildWhereClause q of
          None \<Rightarrow> fieldConditions q = []
        | Some c \<Rightarrow> c = And (fieldConditions q @ dateConditions q @ searchConditions q)"
    by (simp add: buildWhereClause_def Let_def)
  show "evalCond (Like (Column k) pat) m = (\<exists>x. cols m k = Some x \<and> likeMatch pat x)" for k pat m
    by (simp split: option.splits)
  show "likeMatch (''%'' @ s @ ''%'') x = sublist (map asciiLower s) (map asciiLower x)"
    if "\<not> list_ex wildcard s" for s x
    using that by (rule likeMatch_contains)
qed

text \<open>A category filter beside a reserved, an unknown and an empty parameter.\<close>

theorem fieldConditions_spec_witness:
  "fieldConditions [(''category'', QStr ''Human''), (''page'', QNum 1), (''colour'', QStr ''red''),
                    (''inn'', QStr [])]
     = [Like (Column ''category'') ''%Human%'']
   \<and> buildWhereClause [(''category'', QStr ''Human''), (''page'', QNum 1), (''colour'', QStr ''red''),
                       (''inn'', QStr [])]
     = Some (And [Like (Column ''category'') ''%Human%''])
   \<and> likeMatch ''%Human%'' ''human use'' = sublist ''human'' ''human use''"
proof -
  let ?q = "[(''category'', QStr ''Human''), (''page'', QNum 1), (''colour'', QStr ''red''),
             (''inn'', QStr [])]"
  have h: "\<forall>(k, v) \<in> set ?q. k \<notin> set objectPrototypeKeys" by code_simp
  note t = fieldConditions_spec[OF h]
  have f: "map (\<lambda>(k, v). Like (Column k) (''%'' @ toStr v @ ''%''))
             (filter (\<lambda>(k, v). k \<notin> set reservedParams \<and> truthy v \<and> k \<in> set textColumns) ?q)
           = [Like (Column ''category'') ''%Human%'']"
    by code_simp
  have a: "fieldConditions ?q = [Like (Column ''category'') ''%Human%'']"
    using t[THEN conjunct1] unfolding f .
  have b: "buildWhereClause ?q = Some (And [Like (Column ''category'') ''%Human%''])"
    by code_simp
  have w: "\<not> list_ex wildcard ''Human''" by (simp add: wildcard_def)
  have l: "map asciiLower ''Human'' = ''human''" "map asciiLower ''human use'' = ''human use''"
    by code_simp+
  have c: "likeMatch ''%Human%'' ''human use'' = sublist ''human'' ''human use''"
    using t[THEN conjunct2, THEN conjunct2, THEN conjunct2, rule_format, OF w, of "''human use''"]
    unfolding l by simp
  from a b c show ?thesis by (intro conjI)
qed

text \<open>
  Claim C5 as stated, a case-sensitive literal substring, fails: the filter
  \<^verbatim>\<open>category=human\<close> selects a row whose category is \<^verbatim>\<open>Human\<close>, and the filter
  \<^verbatim>\<open>atcCodeHuman=A_1\<close> selects a row whose code is \<^verbatim>\<open>A01\<close>.
\<close>

theorem like_not_literal_substring:
  "buildWhereClause [(''category'', QStr ''human'')] = Some (And [Like (Column ''category'') ''%human%''])
   \<and> evalCond (And [Like (Column ''category'') ''%human%''])
        \<lparr>medicineId = 1, cols = [''category'' \<mapsto> ''Human'']\<rparr>
   \<and> \<not> sublist ''human'' ''Human''
   \<and> buildWhereClause [(''atcCodeHuman'', QStr ''A_1'')] = Some (And [Like (Column ''atcCodeHuman'') ''%A_1%''])
   \<and> evalCond (And [Like (Column ''atcCodeHuman'') ''%A_1%''])
        \<lparr>medicineId = 2, cols = [''atcCodeHuman'' \<mapsto> ''A01'']\<rparr>
   \<and> \<not> sublist ''A_1'' ''A01''"
  by code_simp

lemma totalPages_max:
  assumes "0 \<le> cnt" and "1 \<le> sz"
  shows "(if cnt \<noteq> 0 then \<lceil>real_of_int cnt / real_of_int sz\<rceil> else 1)
           = max 1 \<lceil>real_of_int cnt / real_of_int sz\<rceil>"
proof (cases "cnt = 0")
  case True
  then show ?thesis by simp
next
  case False
  with assms have "0 < real_of_int cnt / real_of_int sz" by simp
  then have "1 \<le> \<lceil>real_of_int cnt / real_of_int sz\<rceil>" by linarith
  with False show ?thesis by simp
qed

text \<open>
  Claim C6, as the code has it. For \<open>page \<ge> 1\<close>, \<open>1 \<le> pageSize \<le> 100\<close> and an offset
  \<open>(page - 1) * pageSize\<close> of at most \<open>2^53 - 1\<close>, the largest integer up to which
  JavaScript numbers are exact, with \<open>total\<close> the number of matching rows: the data are
  the \<open>pageSize\<close> rows from offset \<open>(page - 1) * pageSize\<close> on,
  \<open>totalPages = max 1 \<lceil>total / pageSize\<rceil>\<close>, \<open>hasNextPage = (page < totalPages)\<close> and
  \<open>hasPreviousPage = (1 < page)\<close>. The quotient of \<^verbatim>\<open>Math.ceil(total / pageSize)\<close> is
  taken in the reals; the double-precision quotient has the same ceiling for every count
  below 2^53.
\<close>

theorem list_pagination:
  assumes "selectWhere st (buildWhereClause q) = Inr matching"
    and "pg = numParam q ''page'' 1" and "sz = numParam q ''pageSize'' 50"
    and "1 \<le> pg" and "1 \<le> sz" and "sz \<le> 100" and "(pg - 1) * sz \<le> maxSafeInteger"
  shows "\<exists>resp. listMedicines st q = Inr resp
     \<and> listData resp = take (nat sz) (drop (nat ((pg - 1) * sz)) matching)
     \<and> page (listPagination resp) = pg \<and> pageSize (listPagination resp) = sz
     \<and> totalRecords (listPagination resp) = int (length matching)
     \<and> totalPages (listPagination resp) = max 1 \<lceil>real (length matching) / real_of_int sz\<rceil>
     \<and> hasNextPage (listPagination resp) = (pg < totalPages (listPagination resp))
     \<and> hasPreviousPage (listPagination resp) = (1 < pg)"
proof -
  have n: "\<not> buildWhereClauseThrows q"
    using buildWhereClauseThrows_unbindable[of q st] assms(1) by auto
  have g: "getPaginatedData st (buildWhereClause q) pg sz
             = Inr (take (nat sz) (drop (nat ((pg - 1) * sz)) matching))"
    using assms(1,4,5,6,7) by (rule getPaginatedData_in_range)
  have t: "(if int (length matching) \<noteq> 0
            then \<lceil>real_of_int (int (length matching)) / real_of_int sz\<rceil> else 1)
           = max 1 \<lceil>real_of_int (int (length matching)) / real_of_int sz\<rceil>"
    using assms(5) by (intro totalPages_max) simp_all
  show ?thesis
    using assms(1) t
    by (simp add: listMedicines_def n g getTotalCount_def Let_def assms(2,3)[symmetric])
qed

text \<open>
  25 rows in pages of 10: page 2 has a next and a previous page, page 3 is the last of 3
  and holds 5 rows; an empty table has one page.
\<close>

theorem list_pagination_witness:
  "(\<exists>resp. listMedicines (replicate 25 \<lparr>medicineId = 1, cols = Map.empty\<rparr>)
              [(''page'', QNum 2), (''pageSize'', QNum 10)] = Inr resp
      \<and> totalRecords (listPagination resp) = 25 \<and> totalPages (listPagination resp) = 3
      \<and> hasNextPage (listPagination resp) = True \<and> hasPreviousPage (listPagination resp) = True
      \<and> length (listData resp) = 10)
   \<and> (\<exists>resp. listMedicines (replicate 25 \<lparr>medicineId = 1, cols = Map.empty\<rparr>)
              [(''page'', QNum 3), (''pageSize'', QNum 10)] = Inr resp
      \<and> totalPages (listPagination resp) = 3 \<and> hasNextPage (listPagination resp) = False
      \<and> length (listData resp) = 5)
   \<and> (\<exists>resp. listMedicines [] [(''page'', QNum 1), (''pageSize'', QNum 10)] = Inr resp
      \<and> totalRecords (listPagination resp) = 0 \<and> totalPages (listPagination resp) = 1
      \<and> hasNextPage (listPagination resp) = False \<and> hasPreviousPage (listPagination resp) = False)"
proof -
  let ?st = "replicate 25 \<lparr>medicineId = 1, cols = Map.empty\<rparr>"
  let ?q2 = "[(''page'', QNum 2), (''pageSize'', QNum 10)]"
  let ?q3 = "[(''page'', QNum 3), (''pageSize'', QNum 10)]"
  let ?q1 = "[(''page'', QNum 1), (''pageSize'', QNum 10)]"
  have b: "buildWhereClause ?q2 = None" "buildWhereClause ?q3 = None" "buildWhereClause ?q1 = None"
    by code_simp+
  have s2: "selectWhere ?st (buildWhereClause ?q2) = Inr ?st"
    and s3: "selectWhere ?st (buildWhereClause ?q3) = Inr ?st"
    and s1: "selectWhere [] (buildWhereClause ?q1) = Inr []"
    unfolding b by (simp_all add: selectWhere_def)
  have c: "\<lceil>(25 :: real) / 10\<rceil> = 3" by simp
  from list_pagination[OF s2, of 2 10] have r2:
    "\<exists>resp. listMedicines ?st ?q2 = Inr resp
      \<and> totalRecords (listPagination resp) = 25 \<and> totalPages (listPagination resp) = 3
      \<and> hasNextPage (listPagination resp) = True \<and> hasPreviousPage (listPagination resp) = True
      \<and> length (listData resp) = 10"
    by (auto simp: numParam_def c maxSafeInteger_def)
  from list_pagination[OF s3, of 3 10] have r3:
    "\<exists>resp. listMedicines ?st ?q3 = Inr resp
      \<and> totalPages (listPagination resp) = 3 \<and> hasNextPage (listPagination resp) = False
      \<and> length (listData resp) = 5"
    by (auto simp: numParam_def c maxSafeInteger_def)
  from list_pagination[OF s1, of 1 10] have r1:
    "\<exists>resp. listMedicines [] ?q1 = Inr resp
      \<and> totalRecords (listPagination resp) = 0 \<and> totalPages (listPagination resp) = 1
      \<and> hasNextPage (listPagination resp) = False \<and> hasPreviousPage (listPagination resp) = False"
    by (auto simp: numParam_def maxSafeInteger_def)
  from r2 r3 r1 show ?thesis by (intro conjI)
qed

text \<open>
  Claim C6 as stated, for every \<open>page \<ge> 1\<close>, fails: the route admits the page
  \<open>10^20\<close>, the offset \<open>(page - 1) * pageSize\<close> is then beyond the 64-bit integers, the
  store refuses the statement, and the request ends in \<^verbatim>\<open>500 Database error occurred\<close>
  with no page and no page metadata.
\<close>

theorem list_fails_beyond_int64:
  "(1 :: int) \<le> 100000000000000000000 \<and> (1 :: int) \<le> 10 \<and> (10 :: int) \<le> 100
   \<and> listMedicines [\<lparr>medicineId = 1, cols = Map.empty\<rparr>]
         [(''page'', QNum 100000000000000000000), (''pageSize'', QNum 10)]
       = Inl (HTTPError 500 ''Database error occurred'')"
proof -
  let ?q = "[(''page'', QNum 100000000000000000000), (''pageSize'', QNum 10)]"
  have t: "\<not> buildWhereClauseThrows ?q" by code_simp
  have b: "buildWhereClause ?q = None" by code_simp
  have p: "numParam ?q ''page'' 1 = 100000000000000000000" "numParam ?q ''pageSize'' 50 = 10"
    by (simp_all add: numParam_def)
  have o: "jsNumber (jsNumber 99999999999999999999 * 10) = 1000000000000000000000"
    by code_simp
  show ?thesis
    by (simp add: listMedicines_def t b p o getTotalCount_def selectWhere_def
          getPaginatedData_def int64Max_def Let_def)
qed

end
